theory Spec2Isabelle
  imports Complex_Main "HOL-Library.Word"
begin

unbundle bit_operations_syntax

section \<open>Sound visualisation: the image and audio pipeline of web\_app.py\<close>

text \<open>
  The development embeds the functions of \<^verbatim>\<open>src/web_app.py\<close> that carry the
  numeric contract of the application: \<^verbatim>\<open>adjust_brightness\<close>,
  \<^verbatim>\<open>process_image\<close>, \<^verbatim>\<open>draw_horz_sound\<close>, \<^verbatim>\<open>encode_image\<close>,
  the validation of \<^verbatim>\<open>load_image\<close> and the frame loop of
  \<^verbatim>\<open>visualize_youtube_video\<close>.

  Conventions.
  \<^item> A Python exception is a value \<open>Inl e\<close> of \<open>error + 'a\<close>.
  \<^item> A colour image (a NumPy array of shape \<open>(H, W, 3)\<close> and dtype uint8) is a list of rows
    of pixels, a pixel being three 8-bit words, so that \<open>+\<close> on a channel wraps as
    uint8 arithmetic does.
  \<^item> Python and NumPy floating point numbers are modelled by exact rationals: the
    rounding of IEEE arithmetic is outside the model.
  \<^item> Functions of OpenCV that work on a pixel or resample an image are parameters
    (the record \<open>cv2\<close>); NumPy's and Python's own operations are written out.
\<close>

subsection \<open>Errors\<close>

text \<open>
  \<^verbatim>\<open>load_image\<close> rejects an input by \<^verbatim>\<open>st.warning(...)\<close> followed by
  \<^verbatim>\<open>st.stop()\<close>, which ends the run of the script; \<open>StopException\<close> carries the
  warning shown. \<open>CvError\<close> is \<^verbatim>\<open>cv2.error\<close>.
\<close>

datatype warning =
    SizeMismatch
  | MaskWithoutImage
  | NoImage
  | ImageNotRGB
  | MaskNotRGB

datatype error =
    ValueError
  | ZeroDivisionError
  | IndexError
  | CvError
  | StopException warning

subsection \<open>Arrays\<close>

type_synonym u8 = "8 word"
type_synonym pixel = "u8 \<times> u8 \<times> u8"
type_synonym u8img = "pixel list list"
type_synonym grayimg = "u8 list list"
type_synonym f32px = "rat \<times> rat \<times> rat"
type_synonym f32img = "f32px list list"
type_synonym point = "int \<times> int"

text \<open>\<^verbatim>\<open>img.shape\<close>: the number of rows and the length of a row.\<close>

definition img_height :: "'a list list \<Rightarrow> nat" where
  "img_height img = length img"

definition img_width :: "'a list list \<Rightarrow> nat" where
  "img_width img = (case img of [] \<Rightarrow> 0 | r # _ \<Rightarrow> length r)"

text \<open>A list of rows is an array of shape \<open>(h, w)\<close> when it has \<open>h\<close> rows of length \<open>w\<close>.\<close>

definition has_shape :: "nat \<Rightarrow> nat \<Rightarrow> 'a list list \<Rightarrow> bool" where
  "has_shape h w img = (length img = h \<and> list_all (\<lambda>r. length r = w) img)"

text \<open>
  The functions of OpenCV the program calls. \<open>cv_resize w h\<close> is
  \<^verbatim>\<open>cv2.resize(img, (w, h))\<close> on a colour image and \<open>cv_resize_gray\<close> the same on a
  single-channel image; \<open>cv_rgb2hsv\<close>, \<open>cv_hsv2rgb\<close> and \<open>cv_rgb2gray\<close> are the
  per-pixel maps of \<^verbatim>\<open>cv2.cvtColor\<close>; \<open>cv_line img p1 p2 color thickness\<close> is
  the image \<^verbatim>\<open>cv2.line\<close> leaves in place of \<open>img\<close>.
\<close>

record cv2 =
  cv_resize :: "nat \<Rightarrow> nat \<Rightarrow> u8img \<Rightarrow> u8img"
  cv_resize_gray :: "nat \<Rightarrow> nat \<Rightarrow> grayimg \<Rightarrow> grayimg"
  cv_rgb2hsv :: "pixel \<Rightarrow> pixel"
  cv_hsv2rgb :: "pixel \<Rightarrow> pixel"
  cv_rgb2gray :: "pixel \<Rightarrow> u8"
  cv_line :: "u8img \<Rightarrow> point \<Rightarrow> point \<Rightarrow> pixel \<Rightarrow> nat \<Rightarrow> u8img"

subsection \<open>The store\<close>

text \<open>
  NumPy arrays are mutable objects: \<^verbatim>\<open>img[:, :, 2] *= value\<close> and \<^verbatim>\<open>cv2.line\<close>
  write into the array they are given. The store holds the uint8 arrays and the
  float32 arrays of a session; a reference is an index into one of the two lists, and
  a new array is appended, so its reference is the old length.
\<close>

record store =
  u8_arrays :: "u8img list"
  f32_arrays :: "f32img list"

definition alloc_u8 :: "u8img \<Rightarrow> store \<Rightarrow> nat \<times> store" where
  "alloc_u8 a s = (length (u8_arrays s), s\<lparr>u8_arrays := u8_arrays s @ [a]\<rparr>)"

definition alloc_f32 :: "f32img \<Rightarrow> store \<Rightarrow> nat \<times> store" where
  "alloc_f32 a s = (length (f32_arrays s), s\<lparr>f32_arrays := f32_arrays s @ [a]\<rparr>)"

subsection \<open>Python and NumPy operations\<close>

text \<open>
  \<^verbatim>\<open>max(xs, key=abs)\<close>: the running maximum is replaced only by an item whose key
  is strictly greater, and an empty argument raises \<^verbatim>\<open>ValueError\<close>.
\<close>

fun max_key_abs_from :: "rat \<Rightarrow> rat list \<Rightarrow> rat" where
  "max_key_abs_from m [] = m"
| "max_key_abs_from m (x # xs) = max_key_abs_from (if \<bar>x\<bar> > \<bar>m\<bar> then x else m) xs"

definition py_max_key_abs :: "rat list \<Rightarrow> error + rat" where
  "py_max_key_abs xs = (case xs of [] \<Rightarrow> Inl ValueError | x # rest \<Rightarrow> Inr (max_key_abs_from x rest))"

text \<open>\<^verbatim>\<open>np.clip(x, lo, hi)\<close> is \<^verbatim>\<open>minimum(hi, maximum(x, lo))\<close>.\<close>

definition np_clip :: "rat \<Rightarrow> rat \<Rightarrow> rat \<Rightarrow> rat" where
  "np_clip x lo hi = min hi (max x lo)"

text \<open>Python's \<^verbatim>\<open>round\<close> of a float: to the nearest integer, a tie to the even one.\<close>

definition py_round :: "rat \<Rightarrow> int" where
  "py_round x =
     (let f = \<lfloor>x\<rfloor>; d = x - of_int f
      in if d < 1 / 2 then f else if d > 1 / 2 then f + 1 else if even f then f else f + 1)"

text \<open>
  \<^verbatim>\<open>np.uint8(x)\<close> on a float: the fraction is dropped (truncation towards zero). The
  values the program converts lie in \<open>[0, 256)\<close>; outside it the C conversion is
  platform dependent and the model wraps.
\<close>

definition np_uint8 :: "rat \<Rightarrow> u8" where
  "np_uint8 x = word_of_int (if x < 0 then - \<lfloor>- x\<rfloor> else \<lfloor>x\<rfloor>)"

definition u8_to_f32 :: "u8 \<Rightarrow> rat" where
  "u8_to_f32 c = of_nat (unat c)"

text \<open>Running a list of fallible computations, stopping at the first error.\<close>

fun sequence_sum :: "(error + 'a) list \<Rightarrow> error + 'a list" where
  "sequence_sum [] = Inr []"
| "sequence_sum (x # xs) =
     (case x of Inl e \<Rightarrow> Inl e
      | Inr v \<Rightarrow> (case sequence_sum xs of Inl e \<Rightarrow> Inl e | Inr vs \<Rightarrow> Inr (v # vs)))"

text \<open>
  A binary NumPy ufunc along one axis: axes of equal length are combined elementwise, an
  axis of length 1 is stretched to the other, anything else raises \<^verbatim>\<open>ValueError\<close>
  (operands could not be broadcast together).
\<close>

definition broadcast2 :: "('a \<Rightarrow> 'b \<Rightarrow> error + 'c) \<Rightarrow> 'a list \<Rightarrow> 'b list \<Rightarrow> error + 'c list" where
  "broadcast2 f xs ys =
     (if length xs = length ys then sequence_sum (map2 f xs ys)
      else if length xs = 1 then sequence_sum (map (f (hd xs)) ys)
      else if length ys = 1 then sequence_sum (map (\<lambda>x. f x (hd ys)) xs)
      else Inl ValueError)"

text \<open>uint8 addition of two pixels: each channel wraps modulo 256.\<close>

definition px_add :: "pixel \<Rightarrow> pixel \<Rightarrow> pixel" where
  "px_add p q = (case p of (r1, g1, b1) \<Rightarrow> case q of (r2, g2, b2) \<Rightarrow> (r1 + r2, g1 + g2, b1 + b2))"

text \<open>
  The two pixelwise sums of images of one shape: \<open>wrapped_sum\<close> adds as uint8
  arithmetic does; \<open>clipped_sum\<close> is the sum the specification words, each channel
  saturated at 255.
\<close>

definition wrapped_sum :: "u8img \<Rightarrow> u8img \<Rightarrow> u8img" where
  "wrapped_sum a b = map2 (map2 px_add) a b"

definition clip_add :: "u8 \<Rightarrow> u8 \<Rightarrow> u8" where
  "clip_add a b = of_nat (min 255 (unat a + unat b))"

definition px_add_clipped :: "pixel \<Rightarrow> pixel \<Rightarrow> pixel" where
  "px_add_clipped p q =
     (case p of (r1, g1, b1) \<Rightarrow> case q of (r2, g2, b2) \<Rightarrow>
        (clip_add r1 r2, clip_add g1 g2, clip_add b1 b2))"

definition clipped_sum :: "u8img \<Rightarrow> u8img \<Rightarrow> u8img" where
  "clipped_sum a b = map2 (map2 px_add_clipped) a b"

text \<open>
  \<^verbatim>\<open>np.add(a, b)\<close> on two uint8 images: a new array. An exception leaves the store
  as it is, so a fallible operation on the store returns its result or error together with
  the store at its exit.
\<close>

definition np_add_img :: "u8img \<Rightarrow> u8img \<Rightarrow> error + u8img" where
  "np_add_img a b = broadcast2 (broadcast2 (\<lambda>p q. Inr (px_add p q))) a b"

definition np_add :: "nat \<Rightarrow> nat \<Rightarrow> store \<Rightarrow> (error + nat) \<times> store" where
  "np_add a b s =
     (case np_add_img (u8_arrays s ! a) (u8_arrays s ! b) of
        Inl e \<Rightarrow> (Inl e, s)
      | Inr c \<Rightarrow> (let (r, s1) = alloc_u8 c s in (Inr r, s1)))"

subsection \<open>adjust\_brightness\<close>

text \<open>
  \<^verbatim>\<open>
  def adjust_brightness(img, value):
      img = cv2.cvtColor(img, cv2.COLOR_RGB2HSV)
      img = img.astype(np.float32)
      img[:, :, 2] *= value
      img = np.uint8(img)
      return cv2.cvtColor(img, cv2.COLOR_HSV2RGB)
  \<close>
  Each of \<^verbatim>\<open>cvtColor\<close>, \<^verbatim>\<open>astype\<close> and \<^verbatim>\<open>np.uint8\<close> returns a new array; the
  multiplication writes into the float array \<^verbatim>\<open>astype\<close> returned.
\<close>

definition scale_value_channel :: "rat \<Rightarrow> f32img \<Rightarrow> f32img" where
  "scale_value_channel v img = map (map (\<lambda>(h, sa, b). (h, sa, b * v))) img"

definition astype_f32 :: "u8img \<Rightarrow> f32img" where
  "astype_f32 img = map (map (\<lambda>(h, sa, b). (u8_to_f32 h, u8_to_f32 sa, u8_to_f32 b))) img"

definition np_uint8_img :: "f32img \<Rightarrow> u8img" where
  "np_uint8_img img = map (map (\<lambda>(h, sa, b). (np_uint8 h, np_uint8 sa, np_uint8 b))) img"

definition adjust_brightness :: "cv2 \<Rightarrow> nat \<Rightarrow> rat \<Rightarrow> store \<Rightarrow> nat \<times> store" where
  "adjust_brightness cv img v s =
     (let (hsv, s1) = alloc_u8 (map (map (cv_rgb2hsv cv)) (u8_arrays s ! img)) s;
          (flt, s2) = alloc_f32 (astype_f32 (u8_arrays s1 ! hsv)) s1;
          s3 = s2\<lparr>f32_arrays := (f32_arrays s2)[flt := scale_value_channel v (f32_arrays s2 ! flt)]\<rparr>;
          (hsv8, s4) = alloc_u8 (np_uint8_img (f32_arrays s3 ! flt)) s3
      in alloc_u8 (map (map (cv_hsv2rgb cv)) (u8_arrays s4 ! hsv8)) s4)"

text \<open>The pixel \<^verbatim>\<open>adjust_brightness\<close> computes from a pixel, read off the steps above.\<close>

definition adjusted_pixel :: "cv2 \<Rightarrow> rat \<Rightarrow> pixel \<Rightarrow> pixel" where
  "adjusted_pixel cv v p =
     (case cv_rgb2hsv cv p of (h, sa, b) \<Rightarrow>
        cv_hsv2rgb cv (np_uint8 (u8_to_f32 h), np_uint8 (u8_to_f32 sa), np_uint8 (u8_to_f32 b * v)))"

subsection \<open>draw\_horz\_sound\<close>

text \<open>
  \<^verbatim>\<open>
  def draw_horz_sound(img, amplitudes):
      img_height, img_width, _  = img.shape
      pos_x = 20
      pos_y = img_height - 50
      box_width_px = img_width / 4
      box_height_px = img_height / 5
      num_points = len(amplitudes)
      step_size_in_x = box_width_px / num_points
      step_size_in_y = box_height_px / 6
      line_thickness = 2
      color = (255, 255, 255)
      for i in range(0, len(amplitudes) - 2):
          point1 = (round(pos_x + (i * step_size_in_x)),
                    round(pos_y - (amplitudes[i].item() * step_size_in_y)))
          point2 = (round(pos_x + ((i + 1) * step_size_in_x)),
                    round(pos_y - (amplitudes[i + 1].item() * step_size_in_y)))
          cv2.line(img, point1, point2, color, thickness=line_thickness)
  \<close>
  \<open>sound_point\<close> is the point the loop computes for the sample of index \<open>i\<close>;
  \<open>sound_segments\<close> lists the end points of the calls to \<^verbatim>\<open>cv2.line\<close> in order,
  one call for each \<open>i\<close> of \<^verbatim>\<open>range(0, len(amplitudes) - 2)\<close>. The division by
  \<^verbatim>\<open>num_points\<close> raises \<^verbatim>\<open>ZeroDivisionError\<close> on an empty window, before
  anything is drawn.
\<close>

definition sound_point :: "nat \<Rightarrow> nat \<Rightarrow> rat list \<Rightarrow> nat \<Rightarrow> point" where
  "sound_point h w amplitudes i =
     (let pos_x = (20 :: rat);
          pos_y = (of_nat h - 50 :: rat);
          box_width_px = (of_nat w / 4 :: rat);
          box_height_px = (of_nat h / 5 :: rat);
          step_size_in_x = box_width_px / of_nat (length amplitudes);
          step_size_in_y = box_height_px / 6
      in (py_round (pos_x + of_nat i * step_size_in_x),
          py_round (pos_y - (amplitudes ! i) * step_size_in_y)))"

definition sound_segments :: "nat \<Rightarrow> nat \<Rightarrow> rat list \<Rightarrow> error + (point \<times> point) list" where
  "sound_segments h w amplitudes =
     (if length amplitudes = 0 then Inl ZeroDivisionError
      else Inr (map (\<lambda>i. (sound_point h w amplitudes i, sound_point h w amplitudes (i + 1)))
                  [0 ..< length amplitudes - 2]))"

definition draw_lines :: "cv2 \<Rightarrow> (point \<times> point) list \<Rightarrow> u8img \<Rightarrow> u8img" where
  "draw_lines cv segs img = foldl (\<lambda>im (p1, p2). cv_line cv im p1 p2 (255, 255, 255) 2) img segs"

definition draw_horz_sound :: "cv2 \<Rightarrow> nat \<Rightarrow> rat list \<Rightarrow> store \<Rightarrow> (error + unit) \<times> store" where
  "draw_horz_sound cv img amplitudes s =
     (let a = u8_arrays s ! img
      in case sound_segments (img_height a) (img_width a) amplitudes of
           Inl e \<Rightarrow> (Inl e, s)
         | Inr segs \<Rightarrow> (Inr (), s\<lparr>u8_arrays := (u8_arrays s)[img := draw_lines cv segs a]\<rparr>))"

subsection \<open>encode\_image\<close>

text \<open>
  \<^verbatim>\<open>
  def encode_image(amplitudes_per_img_frame, img_foreground, img_background, should_plot=False):
      max_val = max(amplitudes_per_img_frame, key=abs)
      max_val = np.clip(max_val, -0.3, 0.3)
      max_val = -max_val
      img_foreground = adjust_brightness(img_foreground, max_val + 0.7)
      merged_image = np.add(img_foreground, img_background)
      if should_plot:
          draw_horz_sound(merged_image, amplitudes_per_img_frame)
      return np.asarray(merged_image, dtype=np.uint8)
  \<close>
  \<open>brightness_factor\<close> is the second argument of \<^verbatim>\<open>adjust_brightness\<close>, as a
  function of the value \<^verbatim>\<open>max\<close> returned. \<^verbatim>\<open>np.asarray\<close> of a uint8 array with
  \<^verbatim>\<open>dtype=np.uint8\<close> returns its argument, so the reference returned is that of
  \<^verbatim>\<open>merged_image\<close>. \<open>merge_frame\<close> is the last four lines: the sum, the
  optional trace and the return.
\<close>

definition brightness_factor :: "rat \<Rightarrow> rat" where
  "brightness_factor max_val =
     (let max_val = np_clip max_val (- (3 / 10)) (3 / 10);
          max_val = - max_val
      in max_val + 7 / 10)"

definition merge_frame :: "cv2 \<Rightarrow> rat list \<Rightarrow> nat \<Rightarrow> nat \<Rightarrow> bool \<Rightarrow> store \<Rightarrow> (error + nat) \<times> store" where
  "merge_frame cv amplitudes fg img_background should_plot s =
     (case np_add fg img_background s of
        (Inl e, s2) \<Rightarrow> (Inl e, s2)
      | (Inr merged_image, s2) \<Rightarrow>
          if should_plot then
            (case draw_horz_sound cv merged_image amplitudes s2 of
               (Inl e, s3) \<Rightarrow> (Inl e, s3)
             | (Inr u, s3) \<Rightarrow> (Inr merged_image, s3))
          else (Inr merged_image, s2))"

definition encode_image :: "cv2 \<Rightarrow> rat list \<Rightarrow> nat \<Rightarrow> nat \<Rightarrow> bool \<Rightarrow> store \<Rightarrow> (error + nat) \<times> store" where
  "encode_image cv amplitudes img_foreground img_background should_plot s =
     (case py_max_key_abs amplitudes of
        Inl e \<Rightarrow> (Inl e, s)
      | Inr max_val \<Rightarrow>
          (let (fg, s1) = adjust_brightness cv img_foreground (brightness_factor max_val) s
           in merge_frame cv amplitudes fg img_background should_plot s1))"

subsection \<open>process\_image\<close>

text \<open>
  \<^verbatim>\<open>
  img_height, img_width, channels = img.shape
  while img_width > 500 or img_height > 500:
      img_width = int(img_width / 2)
      img_height = int(img_height / 2)
  \<close>
  \<^verbatim>\<open>int(n / 2)\<close> divides as a float and truncates, which is \<open>n div 2\<close> for the
  dimensions of an image.
\<close>

function resize_dims :: "nat \<Rightarrow> nat \<Rightarrow> nat \<times> nat" where
  "resize_dims h w = (if w > 500 \<or> h > 500 then resize_dims (h div 2) (w div 2) else (h, w))"
  by pat_completeness auto
termination
  by (relation "measure (\<lambda>(h, w). h + w)") auto

declare resize_dims.simps [simp del]

text \<open>
  \<^verbatim>\<open>cv2.resize(img, (w, h))\<close> raises \<^verbatim>\<open>cv2.error\<close> when the requested size is
  empty; otherwise the resampled image is the parameter's.
\<close>

definition cv2_resize :: "cv2 \<Rightarrow> u8img \<Rightarrow> nat \<Rightarrow> nat \<Rightarrow> error + u8img" where
  "cv2_resize cv img w h = (if w = 0 \<or> h = 0 then Inl CvError else Inr (cv_resize cv w h img))"

definition cv2_resize_gray :: "cv2 \<Rightarrow> grayimg \<Rightarrow> nat \<Rightarrow> nat \<Rightarrow> error + grayimg" where
  "cv2_resize_gray cv img w h = (if w = 0 \<or> h = 0 then Inl CvError else Inr (cv_resize_gray cv w h img))"

definition same_shape :: "'a list list \<Rightarrow> 'b list list \<Rightarrow> bool" where
  "same_shape a b = list_all2 (\<lambda>r q. length r = length q) a b"

definition px_or :: "pixel \<Rightarrow> pixel \<Rightarrow> pixel" where
  "px_or p q = (case p of (r1, g1, b1) \<Rightarrow> case q of (r2, g2, b2) \<Rightarrow> (r1 OR r2, g1 OR g2, b1 OR b2))"

text \<open>
  \<^verbatim>\<open>cv2.bitwise_or(img, img, mask=m)\<close>: a new array, the disjunction where the mask is
  not zero and zero elsewhere; the mask must have the size of the image.
\<close>

definition cv2_bitwise_or_mask :: "u8img \<Rightarrow> grayimg \<Rightarrow> error + u8img" where
  "cv2_bitwise_or_mask img m =
     (if same_shape img m
      then Inr (map2 (map2 (\<lambda>p v. if v \<noteq> 0 then px_or p p else (0, 0, 0))) img m)
      else Inl CvError)"

definition cv2_bitwise_not :: "grayimg \<Rightarrow> grayimg" where
  "cv2_bitwise_not m = map (map (\<lambda>v. NOT v)) m"

text \<open>
  \<^verbatim>\<open>
  binary_mask = (cv2.cvtColor(img_mask, cv2.COLOR_RGB2GRAY) > 0)
  binary_mask = np.uint8(binary_mask * 255)
  img_foreground = cv2.bitwise_or(img, img, mask=binary_mask)
  img_background = cv2.bitwise_or(img,img,mask=cv2.bitwise_not(binary_mask))
  \<close>
  on the resized image and the resized mask.
\<close>

definition binary_mask_of :: "cv2 \<Rightarrow> u8img \<Rightarrow> grayimg" where
  "binary_mask_of cv img_mask = map (map (\<lambda>p. if cv_rgb2gray cv p > 0 then 255 else 0)) img_mask"

definition split_layers :: "cv2 \<Rightarrow> u8img \<Rightarrow> u8img \<Rightarrow> error + u8img \<times> u8img" where
  "split_layers cv img img_mask =
     (let binary_mask = binary_mask_of cv img_mask
      in case cv2_bitwise_or_mask img binary_mask of
           Inl e \<Rightarrow> Inl e
         | Inr img_foreground \<Rightarrow>
             (case cv2_bitwise_or_mask img (cv2_bitwise_not binary_mask) of
                Inl e \<Rightarrow> Inl e
              | Inr img_background \<Rightarrow> Inr (img_foreground, img_background)))"

text \<open>
  A bound of a Python slice on an axis of length \<open>n\<close>: a negative bound counts from the
  end, and the result is cut to \<open>[0, n]\<close>.
\<close>

definition slice_index :: "int \<Rightarrow> nat \<Rightarrow> nat" where
  "slice_index i n =
     (if i < 0 then (if i + int n < 0 then 0 else nat (i + int n))
      else if i > int n then n else nat i)"

text \<open>
  \<^verbatim>\<open>dst[r0:r1, c0:c1] = src\<close> on two-dimensional arrays, \<open>dst\<close> of shape
  \<open>(h, w)\<close>. The slice has \<open>rl\<close> rows and \<open>cl\<close> columns; \<open>src\<close> must have that
  shape, an axis of length 1 being stretched, and NumPy raises \<^verbatim>\<open>ValueError\<close> (could
  not broadcast input array) otherwise.
\<close>

definition np_set_slice :: "grayimg \<Rightarrow> nat \<Rightarrow> nat \<Rightarrow> int \<Rightarrow> int \<Rightarrow> int \<Rightarrow> int \<Rightarrow> grayimg \<Rightarrow> error + grayimg" where
  "np_set_slice dst h w r0 r1 c0 c1 src =
     (let ra = slice_index r0 h; rb = slice_index r1 h;
          ca = slice_index c0 w; cb = slice_index c1 w;
          rl = rb - ra; cl = cb - ca;
          sh = img_height src; sw = img_width src
      in if (sh = rl \<or> sh = 1) \<and> (sw = cl \<or> sw = 1)
         then Inr (map (\<lambda>i. map (\<lambda>j.
                if ra \<le> i \<and> i < ra + rl \<and> ca \<le> j \<and> j < ca + cl
                then src ! (if sh = 1 then 0 else i - ra) ! (if sw = 1 then 0 else j - ca)
                else dst ! i ! j) [0 ..< w]) [0 ..< h])
         else Inl ValueError)"

text \<open>
  \<^verbatim>\<open>cv2.addWeighted(src1, alpha, src2, beta, gamma, dst)\<close>: each channel is
  \<open>src1 * alpha + src2 * beta + gamma\<close>, rounded to the nearest integer (a tie to the even
  one) and saturated to \<open>[0, 255]\<close>; the two images must have the same size.
\<close>

definition saturate_u8 :: "int \<Rightarrow> u8" where
  "saturate_u8 i = word_of_int (max 0 (min 255 i))"

definition weighted_channel :: "rat \<Rightarrow> rat \<Rightarrow> rat \<Rightarrow> u8 \<Rightarrow> u8 \<Rightarrow> u8" where
  "weighted_channel alpha beta gamma a b =
     saturate_u8 (py_round (u8_to_f32 a * alpha + u8_to_f32 b * beta + gamma))"

definition cv2_add_weighted :: "u8img \<Rightarrow> rat \<Rightarrow> u8img \<Rightarrow> rat \<Rightarrow> rat \<Rightarrow> error + u8img" where
  "cv2_add_weighted src1 alpha src2 beta gamma =
     (if same_shape src1 src2
      then Inr (map2 (map2 (\<lambda>(r1, g1, b1) (r2, g2, b2).
                  (weighted_channel alpha beta gamma r1 r2,
                   weighted_channel alpha beta gamma g1 g2,
                   weighted_channel alpha beta gamma b1 b2))) src1 src2)
      else Inl CvError)"

text \<open>
  \<^verbatim>\<open>
  sign_img = cv2.imread("files/sign.png", cv2.IMREAD_GRAYSCALE)
  sign_img = ((sign_img > 0) * 255).astype(np.uint8)
  scale = 0.15
  adjusted_height = int(sign_img.shape[0] * scale)
  adjusted_width = int(sign_img.shape[1] * scale)
  resized_sign_img = cv2.resize(sign_img, (adjusted_width, adjusted_height))
  binary_sign_img = np.zeros((img_height, img_width), dtype=np.uint8)
  binary_sign_img[img_height - adjusted_height - 10:img_height - 10,
            img_width - adjusted_width - 10:img_width - 10] = resized_sign_img
  binary_sign_img = np.stack((binary_sign_img, binary_sign_img, binary_sign_img), axis=2)
  cv2.addWeighted(img_background, 1.0, binary_sign_img, 0.5, 0, img_background)
  \<close>
  The file \<^verbatim>\<open>files/sign.png\<close> is not part of the sources: the image read from it is
  the parameter \<open>sign_img\<close>. \<^verbatim>\<open>int(n * 0.15)\<close> is \<open>(n * 15) div 100\<close>.
  \<open>stamp_sign\<close> is the slice assignment into the zero image, \<open>add_sign\<close> the whole
  block.
\<close>

definition scaled_size :: "nat \<Rightarrow> nat" where
  "scaled_size n = (n * 15) div 100"

definition stamp_sign :: "nat \<Rightarrow> nat \<Rightarrow> grayimg \<Rightarrow> nat \<Rightarrow> nat \<Rightarrow> error + grayimg" where
  "stamp_sign h w resized_sign_img adjusted_height adjusted_width =
     np_set_slice (replicate h (replicate w 0)) h w
       (int h - int adjusted_height - 10) (int h - 10)
       (int w - int adjusted_width - 10) (int w - 10) resized_sign_img"

definition add_sign :: "cv2 \<Rightarrow> grayimg \<Rightarrow> nat \<Rightarrow> nat \<Rightarrow> u8img \<Rightarrow> error + u8img" where
  "add_sign cv sign_img h w img_background =
     (let sign_bin = map (map (\<lambda>v. if v > 0 then 255 else 0)) sign_img;
          adjusted_height = scaled_size (img_height sign_bin);
          adjusted_width = scaled_size (img_width sign_bin)
      in case cv2_resize_gray cv sign_bin adjusted_width adjusted_height of
           Inl e \<Rightarrow> Inl e
         | Inr resized_sign_img \<Rightarrow>
             (case stamp_sign h w resized_sign_img adjusted_height adjusted_width of
                Inl e \<Rightarrow> Inl e
              | Inr binary_sign_img \<Rightarrow>
                  cv2_add_weighted img_background 1
                    (map (map (\<lambda>v. (v, v, v))) binary_sign_img) (1 / 2) 0))"

text \<open>
  \<^verbatim>\<open>
  def process_image(img, img_mask):
      assert(img is not None)
      img_height, img_width, channels = img.shape
      while img_width > 500 or img_height > 500: ...
      img = cv2.resize(img, (img_width,img_height))
      if img_mask is None:
          img_foreground = img
          img_background = np.zeros((img_height, img_width, 3), dtype=np.uint8)
      else:
          img_mask = cv2.resize(img_mask, (img_width,img_height))
          ... (split_layers)
      ... (add_sign)
      return img, img_foreground, img_background
  \<close>
  The three arrays are returned as values.
\<close>

definition process_image :: "cv2 \<Rightarrow> grayimg \<Rightarrow> u8img \<Rightarrow> u8img option \<Rightarrow> error + u8img \<times> u8img \<times> u8img" where
  "process_image cv sign_img img0 img_mask =
     (case resize_dims (img_height img0) (img_width img0) of (h, w) \<Rightarrow>
        (case cv2_resize cv img0 w h of
           Inl e \<Rightarrow> Inl e
         | Inr img \<Rightarrow>
             (case (case img_mask of
                      None \<Rightarrow> Inr (img, replicate h (replicate w (0, 0, 0)))
                    | Some m0 \<Rightarrow>
                        (case cv2_resize cv m0 w h of
                           Inl e \<Rightarrow> Inl e
                         | Inr m \<Rightarrow> split_layers cv img m)) of
                Inl e \<Rightarrow> Inl e
              | Inr (img_foreground, img_background) \<Rightarrow>
                  (case add_sign cv sign_img h w img_background of
                     Inl e \<Rightarrow> Inl e
                   | Inr bg \<Rightarrow> Inr (img, img_foreground, bg)))))"

subsection \<open>load\_image\<close>

text \<open>
  A PIL image as far as \<^verbatim>\<open>load_image\<close> looks at it: its size (width, height), the
  number of its bands, and its pixels as an RGB array. \<^verbatim>\<open>convert('RGB')\<close> gives an
  image of three bands and the same size. \<^verbatim>\<open>np.asarray\<close> of an image of one band is a
  two-dimensional array, whose \<^verbatim>\<open>shape[2]\<close> raises \<^verbatim>\<open>IndexError\<close>; an image of more
  bands gives \<^verbatim>\<open>shape[2]\<close> bands.
\<close>

record pil_image =
  pil_size :: "nat \<times> nat"
  pil_bands :: nat
  pil_rgb :: u8img

definition convert_rgb :: "pil_image \<Rightarrow> pil_image" where
  "convert_rgb im = im\<lparr>pil_bands := 3\<rparr>"

definition shape2 :: "pil_image \<Rightarrow> error + nat" where
  "shape2 im = (if pil_bands im \<le> 1 then Inl IndexError else Inr (pil_bands im))"

text \<open>
  What the sidebar delivers to one run of \<^verbatim>\<open>load_image\<close>: the two uploads, whether the
  button of the examples was pressed and the index \<^verbatim>\<open>random.randint\<close> drew. The example
  files are not part of the sources: they are the parameters \<open>sample_images\<close> and
  \<open>sample_images_mask\<close>.
\<close>

record sidebar =
  uploaded_img_file :: "pil_image option"
  uploaded_img_mask :: "pil_image option"
  use_example :: bool
  random_index :: nat

record examples =
  sample_images :: "pil_image list"
  sample_images_mask :: "pil_image list"

definition py_index :: "'a list \<Rightarrow> nat \<Rightarrow> error + 'a" where
  "py_index xs i = (if i < length xs then Inr (xs ! i) else Inl IndexError)"

text \<open>
  \<^verbatim>\<open>
  if st.sidebar.button("Use an existing example"):
      random_index = random.randint(0, len(sample_images) - 1)
      img = Image.open(sample_images[random_index])
      img_mask = Image.open(sample_images_mask[random_index])
  else:
      if uploaded_img_file is not None:
          img = Image.open(io.BytesIO(uploaded_img_file.getvalue()))
          img = img.convert('RGB')
      if uploaded_img_mask is not None:
          img_mask = Image.open(io.BytesIO(uploaded_img_mask.getvalue()))
          img_mask = img_mask.convert('RGB')
      if img and img_mask and img.size != img_mask.size:
          st.warning(...); st.stop()
  \<close>
\<close>

definition choose_images :: "examples \<Rightarrow> sidebar \<Rightarrow> error + pil_image option \<times> pil_image option" where
  "choose_images ex ui =
     (if use_example ui then
        (case py_index (sample_images ex) (random_index ui) of
           Inl e \<Rightarrow> Inl e
         | Inr img \<Rightarrow>
             (case py_index (sample_images_mask ex) (random_index ui) of
                Inl e \<Rightarrow> Inl e
              | Inr img_mask \<Rightarrow> Inr (Some img, Some img_mask)))
      else
        (let img = map_option convert_rgb (uploaded_img_file ui);
             img_mask = map_option convert_rgb (uploaded_img_mask ui)
         in case (img, img_mask) of
              (Some i, Some m) \<Rightarrow>
                if pil_size i \<noteq> pil_size m then Inl (StopException SizeMismatch)
                else Inr (img, img_mask)
            | _ \<Rightarrow> Inr (img, img_mask)))"

text \<open>
  \<^verbatim>\<open>
  if img is None and img_mask:
      st.warning(...); st.stop()
  elif img is None:
      st.warning(...); st.stop()
  img = np.asarray(img, dtype=np.uint8)
  if img is not None and img.shape[2] !=3:
      st.warning(...); st.stop()
  if img_mask:
      img_mask = np.asarray(img_mask, dtype=np.uint8)
      if img_mask.shape[2] !=3:
          st.warning(...); st.stop()
  ...
  return img, img_mask
  \<close>
\<close>

definition load_image :: "examples \<Rightarrow> sidebar \<Rightarrow> error + u8img \<times> u8img option" where
  "load_image ex ui =
     (case choose_images ex ui of
        Inl e \<Rightarrow> Inl e
      | Inr (None, Some m) \<Rightarrow> Inl (StopException MaskWithoutImage)
      | Inr (None, None) \<Rightarrow> Inl (StopException NoImage)
      | Inr (Some img, img_mask) \<Rightarrow>
          (case shape2 img of
             Inl e \<Rightarrow> Inl e
           | Inr c \<Rightarrow>
               if c \<noteq> 3 then Inl (StopException ImageNotRGB)
               else (case img_mask of
                       None \<Rightarrow> Inr (pil_rgb img, None)
                     | Some m \<Rightarrow>
                         (case shape2 m of
                            Inl e \<Rightarrow> Inl e
                          | Inr cm \<Rightarrow>
                              if cm \<noteq> 3 then Inl (StopException MaskNotRGB)
                              else Inr (pil_rgb img, Some (pil_rgb m))))))"

text \<open>
  Both pages prepare the layers by
  \<^verbatim>\<open>
  img, img_mask = load_image()
  resized_img, img_foreground, img_background = process_image(img, img_mask)
  \<close>
\<close>

definition prepare :: "cv2 \<Rightarrow> grayimg \<Rightarrow> examples \<Rightarrow> sidebar \<Rightarrow> error + u8img \<times> u8img \<times> u8img" where
  "prepare cv sign_img ex ui =
     (case load_image ex ui of
        Inl e \<Rightarrow> Inl e
      | Inr (img, img_mask) \<Rightarrow> process_image cv sign_img img img_mask)"

subsection \<open>The frames of visualize\_youtube\_video\<close>








subsection \<open>Instances of the parameters\<close>

text \<open>
  To run the model on concrete inputs the parameters need values. \<open>cv_example\<close>
  resamples by the nearest neighbour, converts colours as OpenCV does on grey pixels
  (\<open>R = G = B\<close>: hue and saturation 0, value and grey level \<open>R\<close>) and draws the two end
  points of a line. \<open>pydub_example\<close> is a mono segment with one sample a millisecond,
  which the WAV file gives back as it is.
\<close>

definition resize_nearest :: "nat \<Rightarrow> nat \<Rightarrow> 'a list list \<Rightarrow> 'a list list" where
  "resize_nearest w h img =
     map (\<lambda>i. map (\<lambda>j. img ! (i * img_height img div h) ! (j * img_width img div w)) [0 ..< w]) [0 ..< h]"

definition plot_px :: "u8img \<Rightarrow> point \<Rightarrow> pixel \<Rightarrow> u8img" where
  "plot_px img p c =
     (case p of (x, y) \<Rightarrow>
        if 0 \<le> y \<and> nat y < length img \<and> 0 \<le> x \<and> nat x < length (img ! nat y)
        then img[nat y := (img ! nat y)[nat x := c]] else img)"

definition cv_example :: cv2 where
  "cv_example =
     \<lparr>cv_resize = resize_nearest,
      cv_resize_gray = resize_nearest,
      cv_rgb2hsv = (\<lambda>(r, g, b). (0, 0, max r (max g b))),
      cv_hsv2rgb = (\<lambda>(h, sa, v). (v, v, v)),
      cv_rgb2gray = (\<lambda>(r, g, b). max r (max g b)),
      cv_line = (\<lambda>img p1 p2 c t. plot_px (plot_px img p1 c) p2 c)\<rparr>"



text \<open>A store with a white foreground pixel and a background pixel under the sign.\<close>

definition store_example :: store where
  "store_example = \<lparr>u8_arrays = [[[(255, 255, 255)]], [[(128, 128, 128)]]], f32_arrays = []\<rparr>"

text \<open>
  Inputs of \<^verbatim>\<open>load_image\<close>: a sign of 14 by 14 pixels, an upload of four bands (an RGBA
  file) of 12 by 12 pixels, a mask of another size, a sidebar with uploads only, a sidebar
  with the button of the examples pressed, and a pair of example files.
\<close>

definition sign_example :: grayimg where
  "sign_example = replicate 14 (replicate 14 255)"

definition rgba_upload :: pil_image where
  "rgba_upload = \<lparr>pil_size = (12, 12), pil_bands = 4, pil_rgb = replicate 12 (replicate 12 (9, 9, 9))\<rparr>"

definition small_mask :: pil_image where
  "small_mask = \<lparr>pil_size = (10, 10), pil_bands = 3, pil_rgb = replicate 10 (replicate 10 (255, 255, 255))\<rparr>"

definition sidebar_uploads :: "pil_image option \<Rightarrow> pil_image option \<Rightarrow> sidebar" where
  "sidebar_uploads i m =
     \<lparr>uploaded_img_file = i, uploaded_img_mask = m, use_example = False, random_index = 0\<rparr>"

definition sidebar_button :: sidebar where
  "sidebar_button =
     \<lparr>uploaded_img_file = None, uploaded_img_mask = None, use_example = True, random_index = 0\<rparr>"

definition examples_example :: examples where
  "examples_example = \<lparr>sample_images = [rgba_upload], sample_images_mask = [small_mask]\<rparr>"


section \<open>Properties\<close>

subsection \<open>The store along encode\_image\<close>

lemma adjusted_img_eq:
  "map (map (cv_hsv2rgb cv)) (np_uint8_img (scale_value_channel v (astype_f32 (map (map (cv_rgb2hsv cv)) a))))
   = map (map (adjusted_pixel cv v)) a"
  by (simp add: np_uint8_img_def scale_value_channel_def astype_f32_def adjusted_pixel_def
      comp_def split_def)

lemma adjust_brightness_eq:
  assumes "img < length (u8_arrays s)"
  shows "adjust_brightness cv img v s =
    (length (u8_arrays s) + 2,
     s\<lparr>u8_arrays := u8_arrays s @
          [map (map (cv_rgb2hsv cv)) (u8_arrays s ! img),
           np_uint8_img (scale_value_channel v (astype_f32 (map (map (cv_rgb2hsv cv)) (u8_arrays s ! img)))),
           map (map (adjusted_pixel cv v)) (u8_arrays s ! img)],
        f32_arrays := f32_arrays s @
          [scale_value_channel v (astype_f32 (map (map (cv_rgb2hsv cv)) (u8_arrays s ! img)))]\<rparr>)"
  using assms
  by (simp add: adjust_brightness_def alloc_u8_def alloc_f32_def Let_def nth_append
      adjusted_img_eq [symmetric])

lemma adjust_brightness_store:
  "adjust_brightness cv img v s = (r, s1) \<Longrightarrow>
   r = length (u8_arrays s) + 2 \<and> (\<exists>xs. u8_arrays s1 = u8_arrays s @ xs \<and> length xs = 3)"
  by (auto simp: adjust_brightness_def alloc_u8_def alloc_f32_def Let_def)

lemma sequence_sum_Inr:
  "length xs = length ys \<Longrightarrow> sequence_sum (map2 (\<lambda>x y. Inr (g x y)) xs ys) = Inr (map2 g xs ys)"
  by (induction xs ys rule: list_induct2) simp_all

lemma broadcast2_row:
  "length r = length q \<Longrightarrow> broadcast2 (\<lambda>p q. Inr (g p q)) r q = Inr (map2 g r q)"
  by (simp add: broadcast2_def sequence_sum_Inr)

lemma sequence_sum_rows:
  "list_all2 (\<lambda>r q. length r = length q) a b \<Longrightarrow>
   sequence_sum (map2 (broadcast2 (\<lambda>p q. Inr (g p q))) a b) = Inr (map2 (map2 g) a b)"
  by (induction a b rule: list_all2_induct) (simp_all add: broadcast2_row)

lemma np_add_img_same_shape:
  "same_shape a b \<Longrightarrow> np_add_img a b = Inr (wrapped_sum a b)"
  by (simp add: np_add_img_def same_shape_def broadcast2_def wrapped_sum_def sequence_sum_rows
      list_all2_lengthD)

lemma same_shape_map_left: "same_shape (map (map f) a) b = same_shape a b"
  by (simp add: same_shape_def list_all2_map1)

lemma encode_image_eq:
  assumes fg: "fg < length (u8_arrays s)" and bg: "bg < length (u8_arrays s)"
    and peak: "py_max_key_abs amplitudes = Inr peak"
    and segs: "sound_segments (img_height frame) (img_width frame) amplitudes = Inr segs"
    and shape: "same_shape (u8_arrays s ! fg) (u8_arrays s ! bg)"
    and frame: "frame = wrapped_sum (map (map (adjusted_pixel cv (brightness_factor peak))) (u8_arrays s ! fg))
                  (u8_arrays s ! bg)"
  shows "\<exists>s'. encode_image cv amplitudes fg bg should_plot s = (Inr (length (u8_arrays s) + 3), s') \<and>
      length (u8_arrays s') = length (u8_arrays s) + 4 \<and>
      take (length (u8_arrays s)) (u8_arrays s') = u8_arrays s \<and>
      u8_arrays s' ! (length (u8_arrays s) + 3) = (if should_plot then draw_lines cv segs frame else frame)"
proof -
  have sh: "same_shape (map (map (adjusted_pixel cv (brightness_factor peak))) (u8_arrays s ! fg)) (u8_arrays s ! bg)"
    using shape by (simp add: same_shape_map_left)
  show ?thesis
    using fg bg peak segs frame np_add_img_same_shape [OF sh]
    by (simp add: encode_image_def adjust_brightness_eq merge_frame_def np_add_def nth_append
        alloc_u8_def draw_horz_sound_def Let_def list_update_append eval_nat_numeral)
qed

lemma merge_frame_store:
  assumes "merge_frame cv amplitudes a b should_plot s1 = (res, s')"
  shows "take (length (u8_arrays s1)) (u8_arrays s') = u8_arrays s1 \<and>
     (case res of Inl e \<Rightarrow> True
      | Inr r \<Rightarrow> r = length (u8_arrays s1) \<and> length (u8_arrays s') = Suc r)"
  using assms
  by (auto simp: merge_frame_def np_add_def alloc_u8_def draw_horz_sound_def Let_def
      split: sum.splits prod.splits if_splits)

lemma encode_image_store:
  assumes "encode_image cv amplitudes fg bg should_plot s = (res, s')"
  shows "take (length (u8_arrays s)) (u8_arrays s') = u8_arrays s \<and>
     (case res of Inl e \<Rightarrow> True
      | Inr r \<Rightarrow> length (u8_arrays s) \<le> r \<and> r < length (u8_arrays s'))"
proof (cases "py_max_key_abs amplitudes")
  case (Inl e)
  then show ?thesis using assms by (auto simp: encode_image_def)
next
  case (Inr max_val)
  obtain a s1 where ab: "adjust_brightness cv fg (brightness_factor max_val) s = (a, s1)"
    by (cases "adjust_brightness cv fg (brightness_factor max_val) s")
  from adjust_brightness_store [OF ab] obtain xs where
    s1: "u8_arrays s1 = u8_arrays s @ xs" "length xs = 3" by blast
  have mf: "merge_frame cv amplitudes a bg should_plot s1 = (res, s')"
    using assms by (simp add: encode_image_def Inr ab)
  from merge_frame_store [OF mf] have
    t: "take (length (u8_arrays s1)) (u8_arrays s') = u8_arrays s1" and
    r: "case res of Inl e \<Rightarrow> True | Inr r \<Rightarrow> r = length (u8_arrays s1) \<and> length (u8_arrays s') = Suc r"
    by simp_all
  have "take (length (u8_arrays s)) (take (length (u8_arrays s1)) (u8_arrays s')) = u8_arrays s"
    unfolding t by (simp add: s1)
  then have keep: "take (length (u8_arrays s)) (u8_arrays s') = u8_arrays s"
    by (simp add: s1 min_def)
  show ?thesis using keep r by (auto simp: s1 split: sum.splits)
qed

subsection \<open>The peak of a window\<close>

lemma max_key_abs_from_first:
  "(max_key_abs_from m xs = m \<and> (\<forall>y\<in>set xs. \<bar>y\<bar> \<le> \<bar>m\<bar>)) \<or>
   (\<exists>pre post. xs = pre @ max_key_abs_from m xs # post \<and> \<bar>m\<bar> < \<bar>max_key_abs_from m xs\<bar> \<and>
      (\<forall>y\<in>set pre. \<bar>y\<bar> < \<bar>max_key_abs_from m xs\<bar>) \<and>
      (\<forall>y\<in>set post. \<bar>y\<bar> \<le> \<bar>max_key_abs_from m xs\<bar>))"
proof (induction xs arbitrary: m)
  case Nil
  then show ?case by simp
next
  case (Cons x xs)
  show ?case
  proof (cases "\<bar>x\<bar> > \<bar>m\<bar>")
    case True
    let ?r = "max_key_abs_from x xs"
    from Cons.IH [of x] show ?thesis
    proof
      assume a: "?r = x \<and> (\<forall>y\<in>set xs. \<bar>y\<bar> \<le> \<bar>x\<bar>)"
      then have "x # xs = [] @ ?r # xs" by simp
      moreover have "\<forall>y\<in>set []. \<bar>y\<bar> < \<bar>?r\<bar>" by simp
      moreover have "\<bar>m\<bar> < \<bar>?r\<bar>" using True a by simp
      moreover have "\<forall>y\<in>set xs. \<bar>y\<bar> \<le> \<bar>?r\<bar>" using a by simp
      ultimately have "\<exists>pre' post'. x # xs = pre' @ ?r # post' \<and> \<bar>m\<bar> < \<bar>?r\<bar> \<and>
        (\<forall>y\<in>set pre'. \<bar>y\<bar> < \<bar>?r\<bar>) \<and> (\<forall>y\<in>set post'. \<bar>y\<bar> \<le> \<bar>?r\<bar>)"
        by blast
      with True show ?thesis by simp
    next
      assume "\<exists>pre post. xs = pre @ ?r # post \<and> \<bar>x\<bar> < \<bar>?r\<bar> \<and>
        (\<forall>y\<in>set pre. \<bar>y\<bar> < \<bar>?r\<bar>) \<and> (\<forall>y\<in>set post. \<bar>y\<bar> \<le> \<bar>?r\<bar>)"
      then obtain pre post where p: "xs = pre @ ?r # post" "\<bar>x\<bar> < \<bar>?r\<bar>"
        "\<forall>y\<in>set pre. \<bar>y\<bar> < \<bar>?r\<bar>" "\<forall>y\<in>set post. \<bar>y\<bar> \<le> \<bar>?r\<bar>" by blast
      have "x # xs = (x # pre) @ ?r # post" using p(1) by simp
      moreover have "\<forall>y\<in>set (x # pre). \<bar>y\<bar> < \<bar>?r\<bar>" using p by simp
      moreover have "\<bar>m\<bar> < \<bar>?r\<bar>" using True p(2) by linarith
      ultimately have "\<exists>pre' post'. x # xs = pre' @ ?r # post' \<and> \<bar>m\<bar> < \<bar>?r\<bar> \<and>
        (\<forall>y\<in>set pre'. \<bar>y\<bar> < \<bar>?r\<bar>) \<and> (\<forall>y\<in>set post'. \<bar>y\<bar> \<le> \<bar>?r\<bar>)"
        using p(4) by blast
      with True show ?thesis by simp
    qed
  next
    case False
    let ?r = "max_key_abs_from m xs"
    from Cons.IH [of m] show ?thesis
    proof
      assume a: "?r = m \<and> (\<forall>y\<in>set xs. \<bar>y\<bar> \<le> \<bar>m\<bar>)"
      with False show ?thesis by auto
    next
      assume "\<exists>pre post. xs = pre @ ?r # post \<and> \<bar>m\<bar> < \<bar>?r\<bar> \<and>
        (\<forall>y\<in>set pre. \<bar>y\<bar> < \<bar>?r\<bar>) \<and> (\<forall>y\<in>set post. \<bar>y\<bar> \<le> \<bar>?r\<bar>)"
      then obtain pre post where p: "xs = pre @ ?r # post" "\<bar>m\<bar> < \<bar>?r\<bar>"
        "\<forall>y\<in>set pre. \<bar>y\<bar> < \<bar>?r\<bar>" "\<forall>y\<in>set post. \<bar>y\<bar> \<le> \<bar>?r\<bar>" by blast
      have "x # xs = (x # pre) @ ?r # post" using p(1) by simp
      moreover have "\<forall>y\<in>set (x # pre). \<bar>y\<bar> < \<bar>?r\<bar>" using p False by auto
      ultimately have "\<exists>pre' post'. x # xs = pre' @ ?r # post' \<and> \<bar>m\<bar> < \<bar>?r\<bar> \<and>
        (\<forall>y\<in>set pre'. \<bar>y\<bar> < \<bar>?r\<bar>) \<and> (\<forall>y\<in>set post'. \<bar>y\<bar> \<le> \<bar>?r\<bar>)"
        using p(2,4) by blast
      with False show ?thesis by simp
    qed
  qed
qed

lemma py_max_key_abs_first:
  assumes "xs \<noteq> []"
  shows "\<exists>pre peak post. xs = pre @ peak # post \<and> py_max_key_abs xs = Inr peak \<and>
      (\<forall>y\<in>set pre. \<bar>y\<bar> < \<bar>peak\<bar>) \<and> (\<forall>y\<in>set post. \<bar>y\<bar> \<le> \<bar>peak\<bar>)"
proof -
  from assms obtain a rest where xs: "xs = a # rest" by (cases xs) auto
  let ?r = "max_key_abs_from a rest"
  have r: "py_max_key_abs xs = Inr ?r" by (simp add: py_max_key_abs_def xs)
  from max_key_abs_from_first [of a rest] show ?thesis
  proof
    assume a: "?r = a \<and> (\<forall>y\<in>set rest. \<bar>y\<bar> \<le> \<bar>a\<bar>)"
    then have "xs = [] @ ?r # rest" by (simp add: xs)
    moreover have "\<forall>y\<in>set []. \<bar>y\<bar> < \<bar>?r\<bar>" by simp
    moreover have "\<forall>y\<in>set rest. \<bar>y\<bar> \<le> \<bar>?r\<bar>" using a by simp
    ultimately show ?thesis using r by blast
  next
    assume "\<exists>pre post. rest = pre @ ?r # post \<and> \<bar>a\<bar> < \<bar>?r\<bar> \<and>
        (\<forall>y\<in>set pre. \<bar>y\<bar> < \<bar>?r\<bar>) \<and> (\<forall>y\<in>set post. \<bar>y\<bar> \<le> \<bar>?r\<bar>)"
    then obtain pre post where p: "rest = pre @ ?r # post" "\<bar>a\<bar> < \<bar>?r\<bar>"
        "\<forall>y\<in>set pre. \<bar>y\<bar> < \<bar>?r\<bar>" "\<forall>y\<in>set post. \<bar>y\<bar> \<le> \<bar>?r\<bar>" by blast
    have "xs = (a # pre) @ ?r # post" using p(1) xs by simp
    moreover have "\<forall>y\<in>set (a # pre). \<bar>y\<bar> < \<bar>?r\<bar>" using p by simp
    ultimately show ?thesis using r p(4) by blast
  qed
qed



subsection \<open>The brightness factor\<close>



subsection \<open>The stored layers\<close>

text \<open>
  C9. For every call of \<^verbatim>\<open>encode_image\<close> on stored layers, whether it returns or
  raises, every array of the store it was called in is unchanged at its exit, in
  particular the foreground and the background (the brightness is scaled in a new array),
  and the frame returned is a new array: its reference is none of the store the call
  started in, so it is neither the foreground nor the background.
\<close>

theorem encode_image_fresh_frame:
  assumes "img_foreground < length (u8_arrays s)" and "img_background < length (u8_arrays s)"
  shows "case encode_image cv amplitudes img_foreground img_background should_plot s of
      (res, s') \<Rightarrow>
        take (length (u8_arrays s)) (u8_arrays s') = u8_arrays s \<and>
        u8_arrays s' ! img_foreground = u8_arrays s ! img_foreground \<and>
        u8_arrays s' ! img_background = u8_arrays s ! img_background \<and>
        (case res of Inl e \<Rightarrow> True
         | Inr r \<Rightarrow> length (u8_arrays s) \<le> r \<and> r < length (u8_arrays s') \<and>
             r \<noteq> img_foreground \<and> r \<noteq> img_background)"
proof -
  obtain res s' where enc: "encode_image cv amplitudes img_foreground img_background should_plot s = (res, s')"
    by (cases "encode_image cv amplitudes img_foreground img_background should_plot s")
  from encode_image_store [OF enc] have
    keep: "take (length (u8_arrays s)) (u8_arrays s') = u8_arrays s" and
    r: "case res of Inl e \<Rightarrow> True | Inr r \<Rightarrow> length (u8_arrays s) \<le> r \<and> r < length (u8_arrays s')"
    by simp_all
  have nth: "\<And>a. a < length (u8_arrays s) \<Longrightarrow> u8_arrays s' ! a = u8_arrays s ! a"
    by (metis keep nth_take)
  show ?thesis
    using keep nth [OF assms(1)] nth [OF assms(2)] r assms
    by (auto simp: enc split: sum.splits)
qed

theorem encode_image_fresh_frame_witness:
  "0 < length (u8_arrays store_example) \<and> 1 < length (u8_arrays store_example) \<and>
   fst (encode_image cv_example [0, 1 / 10, 1 / 5] 0 1 True store_example) = Inr 5 \<and>
   (case encode_image cv_example [0, 1 / 10, 1 / 5] 0 1 True store_example of
      (res, s') \<Rightarrow>
        take (length (u8_arrays store_example)) (u8_arrays s') = u8_arrays store_example \<and>
        u8_arrays s' ! 0 = u8_arrays store_example ! 0 \<and>
        u8_arrays s' ! 1 = u8_arrays store_example ! 1 \<and>
        (case res of Inl e \<Rightarrow> True
         | Inr r \<Rightarrow> length (u8_arrays store_example) \<le> r \<and> r < length (u8_arrays s') \<and>
             r \<noteq> 0 \<and> r \<noteq> 1))"
proof -
  have a: "0 < length (u8_arrays store_example)" by (simp add: store_example_def)
  have b: "1 < length (u8_arrays store_example)" by (simp add: store_example_def)
  have c: "fst (encode_image cv_example [0, 1 / 10, 1 / 5] 0 1 True store_example) = Inr 5"
    by code_simp
  show ?thesis
    using a b c encode_image_fresh_frame [OF a b, of cv_example "[0, 1 / 10, 1 / 5]" True]
    by (intro conjI)
qed

subsection \<open>The composite frame\<close>

lemma px_add_wraps:
  "px_add (r1, g1, b1) (r2, g2, b2) = (r, g, b) \<Longrightarrow>
   unat r = (unat r1 + unat r2) mod 256 \<and> unat g = (unat g1 + unat g2) mod 256 \<and>
   unat b = (unat b1 + unat b2) mod 256"
  by (auto simp: px_add_def unat_word_ariths)

text \<open>
  C1, as stated, fails: the frame is the sum of \<^verbatim>\<open>np.add\<close> on uint8 arrays, which
  wraps. A white foreground pixel at silence has the value 178 after the adjustment; on a
  background pixel of value 128 the frame holds \<open>(178 + 128) mod 256 = 50\<close>, where
  the clipped sum holds 255.
\<close>

theorem encode_image_sum_not_clipped:
  "py_max_key_abs [0] = Inr 0 \<and>
   map (map (adjusted_pixel cv_example (brightness_factor 0))) (u8_arrays store_example ! 0) =
     [[(178, 178, 178)]] \<and>
   fst (encode_image cv_example [0] 0 1 False store_example) = Inr 5 \<and>
   u8_arrays (snd (encode_image cv_example [0] 0 1 False store_example)) ! 5 = [[(50, 50, 50)]] \<and>
   clipped_sum [[(178, 178, 178)]] (u8_arrays store_example ! 1) = [[(255, 255, 255)]] \<and>
   u8_arrays (snd (encode_image cv_example [0] 0 1 False store_example)) ! 5 \<noteq>
     clipped_sum (map (map (adjusted_pixel cv_example (brightness_factor 0))) (u8_arrays store_example ! 0))
       (u8_arrays store_example ! 1)"
  by code_simp

text \<open>
  C1, amended. For every non-empty amplitude window and stored foreground and background
  of one shape, \<^verbatim>\<open>encode_image\<close> returns a frame that is the pixelwise sum of the
  brightness-adjusted foreground and the background with each 8-bit channel wrapped modulo
  256 (\<open>wrapped_sum\<close>, uint8 addition), not clipped; when the trace is requested, its line
  segments are then drawn onto that sum.
\<close>

theorem encode_image_wrapped_sum:
  assumes "amplitudes \<noteq> []"
    and "img_foreground < length (u8_arrays s)" and "img_background < length (u8_arrays s)"
    and "same_shape (u8_arrays s ! img_foreground) (u8_arrays s ! img_background)"
  shows "\<exists>peak segs r s'.
      py_max_key_abs amplitudes = Inr peak \<and>
      sound_segments
        (img_height (wrapped_sum (map (map (adjusted_pixel cv (brightness_factor peak))) (u8_arrays s ! img_foreground))
           (u8_arrays s ! img_background)))
        (img_width (wrapped_sum (map (map (adjusted_pixel cv (brightness_factor peak))) (u8_arrays s ! img_foreground))
           (u8_arrays s ! img_background)))
        amplitudes = Inr segs \<and>
      encode_image cv amplitudes img_foreground img_background should_plot s = (Inr r, s') \<and>
      u8_arrays s' ! r =
        (if should_plot
         then draw_lines cv segs
           (wrapped_sum (map (map (adjusted_pixel cv (brightness_factor peak))) (u8_arrays s ! img_foreground))
              (u8_arrays s ! img_background))
         else wrapped_sum (map (map (adjusted_pixel cv (brightness_factor peak))) (u8_arrays s ! img_foreground))
              (u8_arrays s ! img_background))"
proof -
  from py_max_key_abs_first [OF assms(1)] obtain peak where
    peak: "py_max_key_abs amplitudes = Inr peak" by blast
  define frame where "frame = wrapped_sum (map (map (adjusted_pixel cv (brightness_factor peak)))
    (u8_arrays s ! img_foreground)) (u8_arrays s ! img_background)"
  obtain segs where segs: "sound_segments (img_height frame) (img_width frame) amplitudes = Inr segs"
    using assms(1) by (auto simp: sound_segments_def)
  from encode_image_eq [OF assms(2,3) peak segs assms(4) frame_def, of should_plot]
  obtain s' where
    "encode_image cv amplitudes img_foreground img_background should_plot s =
       (Inr (length (u8_arrays s) + 3), s')"
    "u8_arrays s' ! (length (u8_arrays s) + 3) = (if should_plot then draw_lines cv segs frame else frame)"
    by blast
  then show ?thesis using peak segs unfolding frame_def by blast
qed

theorem encode_image_wrapped_sum_witness:
  "[0] \<noteq> ([] :: rat list) \<and>
   0 < length (u8_arrays store_example) \<and> 1 < length (u8_arrays store_example) \<and>
   same_shape (u8_arrays store_example ! 0) (u8_arrays store_example ! 1) \<and>
   wrapped_sum (map (map (adjusted_pixel cv_example (brightness_factor 0))) (u8_arrays store_example ! 0))
     (u8_arrays store_example ! 1) = [[(50, 50, 50)]] \<and>
   (\<exists>peak segs r s'.
      py_max_key_abs [0] = Inr peak \<and>
      sound_segments
        (img_height (wrapped_sum (map (map (adjusted_pixel cv_example (brightness_factor peak))) (u8_arrays store_example ! 0))
           (u8_arrays store_example ! 1)))
        (img_width (wrapped_sum (map (map (adjusted_pixel cv_example (brightness_factor peak))) (u8_arrays store_example ! 0))
           (u8_arrays store_example ! 1)))
        [0] = Inr segs \<and>
      encode_image cv_example [0] 0 1 False store_example = (Inr r, s') \<and>
      u8_arrays s' ! r =
        (if False
         then draw_lines cv_example segs
           (wrapped_sum (map (map (adjusted_pixel cv_example (brightness_factor peak))) (u8_arrays store_example ! 0))
              (u8_arrays store_example ! 1))
         else wrapped_sum (map (map (adjusted_pixel cv_example (brightness_factor peak))) (u8_arrays store_example ! 0))
              (u8_arrays store_example ! 1)))"
proof -
  have h: "[0] \<noteq> ([] :: rat list)" by simp
  have a: "0 < length (u8_arrays store_example)" by (simp add: store_example_def)
  have b: "1 < length (u8_arrays store_example)" by (simp add: store_example_def)
  have c: "same_shape (u8_arrays store_example ! 0) (u8_arrays store_example ! 1)"
    by (simp add: store_example_def same_shape_def)
  have d: "wrapped_sum (map (map (adjusted_pixel cv_example (brightness_factor 0))) (u8_arrays store_example ! 0))
     (u8_arrays store_example ! 1) = [[(50, 50, 50)]]"
    by code_simp
  show ?thesis
    using h a b c d encode_image_wrapped_sum [OF h a b c, of cv_example False]
    by (intro conjI)
qed

subsection \<open>The trace\<close>

lemma sound_segments_length:
  "sound_segments h w amplitudes = Inr segs \<Longrightarrow> length segs = length amplitudes - 2"
  by (auto simp: sound_segments_def split: if_splits)

text \<open>
  C6. The claim has every pair of consecutive samples joined. The loop of
  \<^verbatim>\<open>draw_horz_sound\<close> runs over \<^verbatim>\<open>range(0, len(amplitudes) - 2)\<close> and joins the
  samples \<open>i\<close> and \<open>i + 1\<close>, so it stops one pair early: a window of two samples
  draws nothing, and of three samples only the first two are joined, the point of the
  last sample being no end point of any segment.
\<close>

theorem draw_horz_sound_stops_one_pair_early:
  "sound_segments 100 200 [1 / 10, 1 / 5] = Inr [] \<and>
   sound_segments 100 200 [1 / 10, 1 / 5, - (1 / 10)] = Inr [((20, 50), (37, 49))] \<and>
   sound_point 100 200 [1 / 10, 1 / 5, - (1 / 10)] 2 = (53, 50)"
  by code_simp

subsection \<open>The working resolution\<close>

lemma resize_dims_halvings:
  "resize_dims h w = (h', w') \<Longrightarrow>
   h' \<le> 500 \<and> w' \<le> 500 \<and>
   (\<exists>k. h' = h div 2 ^ k \<and> w' = w div 2 ^ k \<and> (\<forall>j<k. 500 < w div 2 ^ j \<or> 500 < h div 2 ^ j))"
proof (induction h w rule: resize_dims.induct)
  case (1 h w)
  show ?case
  proof (cases "w > 500 \<or> h > 500")
    case True
    with "1.prems" have r: "resize_dims (h div 2) (w div 2) = (h', w')"
      by (simp add: resize_dims.simps [of h w])
    from "1.IH" [OF True r] obtain k where
      k: "h' \<le> 500" "w' \<le> 500" "h' = h div 2 div 2 ^ k" "w' = w div 2 div 2 ^ k"
         "\<forall>j<k. 500 < w div 2 div 2 ^ j \<or> 500 < h div 2 div 2 ^ j"
      by blast
    have "h' = h div 2 ^ Suc k" "w' = w div 2 ^ Suc k"
      using k(3,4) by (simp_all add: div_mult2_eq)
    moreover have "\<forall>j<Suc k. 500 < w div 2 ^ j \<or> 500 < h div 2 ^ j"
    proof (intro allI impI)
      fix j assume "j < Suc k"
      show "500 < w div 2 ^ j \<or> 500 < h div 2 ^ j"
      proof (cases j)
        case 0
        then show ?thesis using True by simp
      next
        case (Suc i)
        then have "i < k" using \<open>j < Suc k\<close> by simp
        with k(5) have "500 < w div 2 div 2 ^ i \<or> 500 < h div 2 div 2 ^ i" by blast
        then show ?thesis by (simp add: Suc div_mult2_eq)
      qed
    qed
    ultimately show ?thesis using k(1,2) by blast
  next
    case False
    with "1.prems" have "h' = h" "w' = w"
      by (simp_all add: resize_dims.simps [of h w])
    then have "h' = h div 2 ^ 0 \<and> w' = w div 2 ^ 0 \<and> (\<forall>j<0. 500 < w div 2 ^ j \<or> 500 < h div 2 ^ j)"
      by simp
    then show ?thesis using False \<open>h' = h\<close> \<open>w' = w\<close> by (metis not_less)
  qed
qed

lemma has_shape_map2:
  "same_shape a b \<Longrightarrow> has_shape h w a \<Longrightarrow> has_shape h w (map2 (map2 f) a b)"
  unfolding same_shape_def has_shape_def
  by (induction a b arbitrary: h rule: list_all2_induct) auto

lemma has_shape_replicate: "has_shape h w (replicate h (replicate w x))"
  by (simp add: has_shape_def list_all_iff)

lemma bitwise_or_mask_shape:
  "cv2_bitwise_or_mask img m = Inr fg \<Longrightarrow> has_shape h w img \<Longrightarrow> has_shape h w fg"
  by (auto simp: cv2_bitwise_or_mask_def has_shape_map2 split: if_splits)

lemma split_layers_shape:
  "split_layers cv img m = Inr (fg, bg) \<Longrightarrow> has_shape h w img \<Longrightarrow>
   has_shape h w fg \<and> has_shape h w bg"
  by (auto simp: split_layers_def Let_def bitwise_or_mask_shape split: sum.splits)

lemma add_weighted_shape:
  "cv2_add_weighted a al b be ga = Inr c \<Longrightarrow> has_shape h w a \<Longrightarrow> has_shape h w c"
  by (auto simp: cv2_add_weighted_def has_shape_map2 split: if_splits)

lemma add_sign_shape:
  "add_sign cv sign_img h w bg0 = Inr bg \<Longrightarrow> has_shape h' w' bg0 \<Longrightarrow> has_shape h' w' bg"
  by (auto simp: add_sign_def Let_def add_weighted_shape split: sum.splits)

lemma process_image_steps:
  assumes "resize_dims (img_height img0) (img_width img0) = (h, w)"
    and "process_image cv sign_img img0 img_mask = Inr (img, fg, bg)"
  shows "img = cv_resize cv w h img0 \<and>
     (\<exists>bg0. (case img_mask of
               None \<Rightarrow> fg = img \<and> bg0 = replicate h (replicate w (0, 0, 0))
             | Some m0 \<Rightarrow> split_layers cv img (cv_resize cv w h m0) = Inr (fg, bg0)) \<and>
            add_sign cv sign_img h w bg0 = Inr bg)"
  using assms
  by (auto simp: process_image_def cv2_resize_def split: sum.splits option.splits if_splits)

text \<open>
  C5. \<^verbatim>\<open>process_image\<close> halves both dimensions by integer division while either
  exceeds 500: the dimensions \<open>(h, w)\<close> it works at are at most 500, they are the
  original ones divided by \<open>2 ^ k\<close>, and at each of the \<open>k\<close> halvings a dimension
  exceeded 500. Whenever it returns, the image returned is the input resized to
  \<open>(h, w)\<close>; the layers of a masked input are those of \<open>split_layers\<close> on that image and
  the mask resized to the same \<open>(h, w)\<close>; and image and layers have the shape \<open>(h, w)\<close>
  when \<^verbatim>\<open>cv2.resize\<close> returns the size it is asked for.
\<close>

theorem process_image_resize:
  assumes "resize_dims (img_height img0) (img_width img0) = (h, w)"
  shows "h \<le> 500 \<and> w \<le> 500 \<and>
    (\<exists>k. h = img_height img0 div 2 ^ k \<and> w = img_width img0 div 2 ^ k \<and>
       (\<forall>j<k. 500 < img_width img0 div 2 ^ j \<or> 500 < img_height img0 div 2 ^ j)) \<and>
    (\<forall>img fg bg. process_image cv sign_img img0 img_mask = Inr (img, fg, bg) \<longrightarrow>
       img = cv_resize cv w h img0 \<and>
       (case img_mask of
          None \<Rightarrow> fg = img
        | Some m0 \<Rightarrow>
            (\<exists>bg0. split_layers cv img (cv_resize cv w h m0) = Inr (fg, bg0) \<and>
               add_sign cv sign_img h w bg0 = Inr bg)) \<and>
       (has_shape h w (cv_resize cv w h img0) \<longrightarrow>
          has_shape h w img \<and> has_shape h w fg \<and> has_shape h w bg))"
proof -
  have steps: "img = cv_resize cv w h img0 \<and>
       (case img_mask of
          None \<Rightarrow> fg = img
        | Some m0 \<Rightarrow>
            (\<exists>bg0. split_layers cv img (cv_resize cv w h m0) = Inr (fg, bg0) \<and>
               add_sign cv sign_img h w bg0 = Inr bg)) \<and>
       (has_shape h w (cv_resize cv w h img0) \<longrightarrow>
          has_shape h w img \<and> has_shape h w fg \<and> has_shape h w bg)"
    if p: "process_image cv sign_img img0 img_mask = Inr (img, fg, bg)" for img fg bg
  proof -
    from process_image_steps [OF assms p] obtain bg0 where
      i: "img = cv_resize cv w h img0" and
      l: "case img_mask of
               None \<Rightarrow> fg = img \<and> bg0 = replicate h (replicate w (0, 0, 0))
             | Some m0 \<Rightarrow> split_layers cv img (cv_resize cv w h m0) = Inr (fg, bg0)" and
      a: "add_sign cv sign_img h w bg0 = Inr bg"
      by blast
    have sh: "has_shape h w fg \<and> has_shape h w bg" if s: "has_shape h w img"
    proof (cases img_mask)
      case None
      with l have "fg = img" "bg0 = replicate h (replicate w (0, 0, 0))" by simp_all
      moreover have "has_shape h w bg0"
        unfolding \<open>bg0 = replicate h (replicate w (0, 0, 0))\<close> by (rule has_shape_replicate)
      ultimately show ?thesis using s add_sign_shape [OF a, of h w] by simp
    next
      case (Some m0)
      with l have "split_layers cv img (cv_resize cv w h m0) = Inr (fg, bg0)" by simp
      from split_layers_shape [OF this s] show ?thesis
        using add_sign_shape [OF a, of h w] by simp
    qed
    show ?thesis using i l a sh by (auto split: option.splits)
  qed
  from resize_dims_halvings [OF assms] steps show ?thesis by blast
qed

subsection \<open>The two layers\<close>

lemma same_shape_map_right: "same_shape a (map (map f) b) = same_shape a b"
  by (simp add: same_shape_def list_all2_map2)

lemma same_shape_map2_left:
  "same_shape a b \<Longrightarrow> same_shape (map2 (map2 f) a b) c = same_shape a c"
  unfolding same_shape_def
proof (induction a b arbitrary: c rule: list_all2_induct)
  case Nil
  then show ?case by simp
next
  case (Cons x xs y ys)
  then show ?case by (cases c) simp_all
qed

lemma same_shape_map2_right:
  "same_shape a b \<Longrightarrow> same_shape c (map2 (map2 f) a b) = same_shape c a"
  unfolding same_shape_def
proof (induction a b arbitrary: c rule: list_all2_induct)
  case Nil
  then show ?case by simp
next
  case (Cons x xs y ys)
  then show ?case by (cases c) simp_all
qed

lemma same_shape_refl: "same_shape a a"
  by (simp add: same_shape_def list_all2_refl)

lemma has_shape_same_shape: "has_shape h w a \<Longrightarrow> has_shape h w b \<Longrightarrow> same_shape a b"
  unfolding same_shape_def has_shape_def list_all_iff
  by (auto simp: list_all2_conv_all_nth)

lemma px_or_self: "px_or p p = p"
  by (cases p) (simp add: px_or_def)

lemma px_add_zero: "px_add p (0, 0, 0) = p" "px_add (0, 0, 0) p = p"
  by (cases p; simp add: px_add_def)+

lemma clip_add_zero: "clip_add a 0 = a" "clip_add 0 a = a"
proof -
  have "unat a \<le> 255" using unsigned_less [of a, where ?'a = nat] by simp
  then have "min 255 (unat a) = unat a" by simp
  then show "clip_add a 0 = a" "clip_add 0 a = a" by (simp_all add: clip_add_def)
qed

lemma px_add_clipped_zero: "px_add_clipped p (0, 0, 0) = p" "px_add_clipped (0, 0, 0) p = p"
  by (cases p; simp add: px_add_clipped_def clip_add_zero)+

text \<open>A pixel of the image under a mask value and under its complement.\<close>

lemma layer_rows:
  assumes "length r = length q"
  shows "list_all2 (\<lambda>p q. p = (0, 0, 0) \<or> q = (0, 0, 0))
      (map2 (\<lambda>p v. if v \<noteq> 0 then px_or p p else (0, 0, 0)) r
         (map (\<lambda>x. if g x > 0 then 255 else (0 :: u8)) q))
      (map2 (\<lambda>p v. if v \<noteq> 0 then px_or p p else (0, 0, 0)) r
         (map (\<lambda>v. NOT v) (map (\<lambda>x. if g x > 0 then 255 else (0 :: u8)) q))) \<and>
    map2 px_add
      (map2 (\<lambda>p v. if v \<noteq> 0 then px_or p p else (0, 0, 0)) r
         (map (\<lambda>x. if g x > 0 then 255 else (0 :: u8)) q))
      (map2 (\<lambda>p v. if v \<noteq> 0 then px_or p p else (0, 0, 0)) r
         (map (\<lambda>v. NOT v) (map (\<lambda>x. if g x > 0 then 255 else (0 :: u8)) q))) = r \<and>
    map2 px_add_clipped
      (map2 (\<lambda>p v. if v \<noteq> 0 then px_or p p else (0, 0, 0)) r
         (map (\<lambda>x. if g x > 0 then 255 else (0 :: u8)) q))
      (map2 (\<lambda>p v. if v \<noteq> 0 then px_or p p else (0, 0, 0)) r
         (map (\<lambda>v. NOT v) (map (\<lambda>x. if g x > 0 then 255 else (0 :: u8)) q))) = r"
  using assms
proof (induction r q rule: list_induct2)
  case Nil
  then show ?case by simp
next
  case (Cons p ps x xs)
  have n: "NOT (255 :: u8) = 0" "NOT (0 :: u8) \<noteq> 0" by simp_all
  show ?case using Cons.IH
    by (simp add: n px_or_self px_add_zero px_add_clipped_zero)
qed

lemma split_layers_same_shape:
  assumes "same_shape img img_mask"
  shows "split_layers cv img img_mask =
      Inr (map2 (map2 (\<lambda>p v. if v \<noteq> 0 then px_or p p else (0, 0, 0))) img (binary_mask_of cv img_mask),
           map2 (map2 (\<lambda>p v. if v \<noteq> 0 then px_or p p else (0, 0, 0))) img
             (cv2_bitwise_not (binary_mask_of cv img_mask)))"
  using assms
  by (simp add: split_layers_def Let_def cv2_bitwise_or_mask_def binary_mask_of_def
      cv2_bitwise_not_def same_shape_map_right)

lemma layers_complementary:
  assumes "same_shape img img_mask"
  shows "list_all2 (list_all2 (\<lambda>p q. p = (0, 0, 0) \<or> q = (0, 0, 0)))
      (map2 (map2 (\<lambda>p v. if v \<noteq> 0 then px_or p p else (0, 0, 0))) img (binary_mask_of cv img_mask))
      (map2 (map2 (\<lambda>p v. if v \<noteq> 0 then px_or p p else (0, 0, 0))) img
         (cv2_bitwise_not (binary_mask_of cv img_mask))) \<and>
    wrapped_sum
      (map2 (map2 (\<lambda>p v. if v \<noteq> 0 then px_or p p else (0, 0, 0))) img (binary_mask_of cv img_mask))
      (map2 (map2 (\<lambda>p v. if v \<noteq> 0 then px_or p p else (0, 0, 0))) img
         (cv2_bitwise_not (binary_mask_of cv img_mask))) = img \<and>
    clipped_sum
      (map2 (map2 (\<lambda>p v. if v \<noteq> 0 then px_or p p else (0, 0, 0))) img (binary_mask_of cv img_mask))
      (map2 (map2 (\<lambda>p v. if v \<noteq> 0 then px_or p p else (0, 0, 0))) img
         (cv2_bitwise_not (binary_mask_of cv img_mask))) = img"
  using assms unfolding same_shape_def binary_mask_of_def cv2_bitwise_not_def wrapped_sum_def clipped_sum_def
proof (induction img img_mask rule: list_all2_induct)
  case Nil
  then show ?case by simp
next
  case (Cons r rs q qs)
  from layer_rows [OF Cons.hyps(1), of "cv_rgb2gray cv"] Cons.IH show ?case by simp
qed

text \<open>
  C4. For every image and mask of one shape (the resized image and the resized mask),
  \<open>split_layers\<close> returns a foreground and a background that are pixel-disjoint: at each
  position one of the two pixels is black. Their pixelwise sum, before the sign is added
  to the background, is the resized image, whether the sum wraps or clips, and
  \<^verbatim>\<open>np.add\<close> returns it.
\<close>

theorem split_layers_complementary:
  assumes "same_shape img img_mask"
  shows "\<exists>fg bg. split_layers cv img img_mask = Inr (fg, bg) \<and>
      list_all2 (list_all2 (\<lambda>p q. p = (0, 0, 0) \<or> q = (0, 0, 0))) fg bg \<and>
      wrapped_sum fg bg = img \<and> clipped_sum fg bg = img \<and> np_add_img fg bg = Inr img"
proof -
  let ?fg = "map2 (map2 (\<lambda>p v. if v \<noteq> 0 then px_or p p else (0, 0, 0))) img (binary_mask_of cv img_mask)"
  let ?bg = "map2 (map2 (\<lambda>p v. if v \<noteq> 0 then px_or p p else (0, 0, 0))) img
         (cv2_bitwise_not (binary_mask_of cv img_mask))"
  have s: "split_layers cv img img_mask = Inr (?fg, ?bg)"
    by (rule split_layers_same_shape [OF assms])
  have c: "list_all2 (list_all2 (\<lambda>p q. p = (0, 0, 0) \<or> q = (0, 0, 0))) ?fg ?bg"
    "wrapped_sum ?fg ?bg = img" "clipped_sum ?fg ?bg = img"
    using layers_complementary [OF assms, of cv] by simp_all
  have m: "same_shape img (binary_mask_of cv img_mask)"
    using assms by (simp add: binary_mask_of_def same_shape_map_right)
  have m': "same_shape img (cv2_bitwise_not (binary_mask_of cv img_mask))"
    using m by (simp add: cv2_bitwise_not_def same_shape_map_right)
  have "same_shape ?fg ?bg"
    by (simp add: same_shape_map2_left [OF m] same_shape_map2_right [OF m'] same_shape_refl)
  from np_add_img_same_shape [OF this] have "np_add_img ?fg ?bg = Inr img" by (simp add: c(2))
  with s c show ?thesis by blast
qed

subsection \<open>The sign\<close>

lemma img_height_shape: "has_shape h w img \<Longrightarrow> img_height img = h"
  by (simp add: has_shape_def img_height_def)

lemma img_width_shape: "has_shape h w img \<Longrightarrow> 0 < h \<Longrightarrow> img_width img = w"
  by (cases img) (auto simp: has_shape_def img_width_def)

lemma slice_index_start:
  "a + 10 \<le> n \<Longrightarrow> slice_index (int n - int a - 10) n = n - a - 10"
  by (auto simp: slice_index_def)

lemma slice_index_stop: "10 \<le> n \<Longrightarrow> slice_index (int n - 10) n = n - 10"
  by (auto simp: slice_index_def)

lemma slice_index_wrapped:
  "n < a + 10 \<Longrightarrow> slice_index (int n - int a - 10) n = nat (2 * int n - int a - 10)"
  by (simp add: slice_index_def) linarith

lemma stamp_sign_fits:
  assumes g: "has_shape ah aw glyph" and pos: "0 < ah" "0 < aw"
    and fit: "ah + 10 \<le> h" "aw + 10 \<le> w"
  shows "stamp_sign h w glyph ah aw =
    Inr (map (\<lambda>i. map (\<lambda>j.
          if h - ah - 10 \<le> i \<and> i < h - 10 \<and> w - aw - 10 \<le> j \<and> j < w - 10
          then glyph ! (i - (h - ah - 10)) ! (j - (w - aw - 10)) else 0) [0 ..< w]) [0 ..< h])"
proof -
  have sh: "img_height glyph = ah" "img_width glyph = aw"
    using g pos by (simp_all add: img_height_shape img_width_shape)
  have r: "slice_index (int h - int ah - 10) h = h - ah - 10" "slice_index (int h - 10) h = h - 10"
    using fit by (simp_all add: slice_index_start slice_index_stop)
  have c: "slice_index (int w - int aw - 10) w = w - aw - 10" "slice_index (int w - 10) w = w - 10"
    using fit by (simp_all add: slice_index_start slice_index_stop)
  have l: "h - 10 - (h - ah - 10) = ah" "w - 10 - (w - aw - 10) = aw"
    "h - ah - 10 + ah = h - 10" "w - aw - 10 + aw = w - 10"
    using fit by simp_all
  show ?thesis
    unfolding stamp_sign_def np_set_slice_def Let_def sh r c l
    by (auto simp: l)
qed

lemma stamp_sign_too_small_rows:
  assumes g: "has_shape ah aw glyph" and big: "2 \<le> ah" and small: "10 \<le> h" "h < ah + 10"
  shows "stamp_sign h w glyph ah aw = Inl ValueError"
proof -
  have sh: "img_height glyph = ah" using g by (simp add: img_height_shape)
  have r: "slice_index (int h - int ah - 10) h = nat (2 * int h - int ah - 10)"
    "slice_index (int h - 10) h = h - 10"
    using small by (simp_all add: slice_index_wrapped slice_index_stop)
  have "h - 10 - nat (2 * int h - int ah - 10) \<noteq> ah" using small big by linarith
  then show ?thesis
    using big unfolding stamp_sign_def np_set_slice_def Let_def sh r by simp
qed

lemma stamp_sign_too_small_cols:
  assumes g: "has_shape ah aw glyph" and pos: "0 < ah" and big: "2 \<le> aw"
    and small: "10 \<le> w" "w < aw + 10"
  shows "stamp_sign h w glyph ah aw = Inl ValueError"
proof -
  have sh: "img_width glyph = aw" using g pos by (simp add: img_width_shape)
  have r: "slice_index (int w - int aw - 10) w = nat (2 * int w - int aw - 10)"
    "slice_index (int w - 10) w = w - 10"
    using small by (simp_all add: slice_index_wrapped slice_index_stop)
  have "w - 10 - nat (2 * int w - int aw - 10) \<noteq> aw" using small big by linarith
  then show ?thesis
    using big unfolding stamp_sign_def np_set_slice_def Let_def sh r by simp
qed

lemma has_shape_grid: "has_shape h w (map (\<lambda>i. map (f i) [0 ..< w]) [0 ..< h])"
  by (simp add: has_shape_def list_all_iff)

text \<open>
  C10, amended. With a scaled sign of \<open>ah\<close> rows and \<open>aw\<close> columns, the stamping
  places the sign fully inside the image, its last row and column 10 pixels from the bottom
  and the right edge, when both dimensions of the prepared image are at least the
  size of the sign plus 10. In an image smaller than that in an axis where it has at least
  10 pixels and the sign at least 2, the start bound of the slice is negative and the
  slice assignment raises \<^verbatim>\<open>ValueError\<close>: the slice it selects has not the shape of the
  sign.
\<close>

theorem stamp_sign_placement:
  assumes "has_shape ah aw glyph" and "0 < ah" and "0 < aw"
  shows "(ah + 10 \<le> h \<and> aw + 10 \<le> w \<longrightarrow>
      (\<exists>stamped. stamp_sign h w glyph ah aw = Inr stamped \<and> has_shape h w stamped \<and>
         (\<forall>i<h. \<forall>j<w. stamped ! i ! j =
            (if h - ah - 10 \<le> i \<and> i < h - 10 \<and> w - aw - 10 \<le> j \<and> j < w - 10
             then glyph ! (i - (h - ah - 10)) ! (j - (w - aw - 10)) else 0)))) \<and>
    (2 \<le> ah \<and> 10 \<le> h \<and> h < ah + 10 \<longrightarrow>
       int h - int ah - 10 < 0 \<and> stamp_sign h w glyph ah aw = Inl ValueError) \<and>
    (2 \<le> aw \<and> 10 \<le> w \<and> w < aw + 10 \<longrightarrow>
       int w - int aw - 10 < 0 \<and> stamp_sign h w glyph ah aw = Inl ValueError)"
proof (intro conjI impI)
  assume fit: "ah + 10 \<le> h \<and> aw + 10 \<le> w"
  let ?st = "map (\<lambda>i. map (\<lambda>j.
          if h - ah - 10 \<le> i \<and> i < h - 10 \<and> w - aw - 10 \<le> j \<and> j < w - 10
          then glyph ! (i - (h - ah - 10)) ! (j - (w - aw - 10)) else 0) [0 ..< w]) [0 ..< h]"
  have "stamp_sign h w glyph ah aw = Inr ?st"
    using stamp_sign_fits [OF assms] fit by simp
  moreover have "has_shape h w ?st" by (rule has_shape_grid)
  moreover have "\<forall>i<h. \<forall>j<w. ?st ! i ! j =
            (if h - ah - 10 \<le> i \<and> i < h - 10 \<and> w - aw - 10 \<le> j \<and> j < w - 10
             then glyph ! (i - (h - ah - 10)) ! (j - (w - aw - 10)) else 0)"
    by simp
  ultimately show "\<exists>stamped. stamp_sign h w glyph ah aw = Inr stamped \<and> has_shape h w stamped \<and>
         (\<forall>i<h. \<forall>j<w. stamped ! i ! j =
            (if h - ah - 10 \<le> i \<and> i < h - 10 \<and> w - aw - 10 \<le> j \<and> j < w - 10
             then glyph ! (i - (h - ah - 10)) ! (j - (w - aw - 10)) else 0))"
    by blast
next
  assume "2 \<le> ah \<and> 10 \<le> h \<and> h < ah + 10"
  then show "int h - int ah - 10 < 0" by linarith
next
  assume "2 \<le> ah \<and> 10 \<le> h \<and> h < ah + 10"
  then show "stamp_sign h w glyph ah aw = Inl ValueError"
    using stamp_sign_too_small_rows [OF assms(1)] by blast
next
  assume "2 \<le> aw \<and> 10 \<le> w \<and> w < aw + 10"
  then show "int w - int aw - 10 < 0" by linarith
next
  assume "2 \<le> aw \<and> 10 \<le> w \<and> w < aw + 10"
  then show "stamp_sign h w glyph ah aw = Inl ValueError"
    using stamp_sign_too_small_cols [OF assms(1,2)] by blast
qed

theorem stamp_sign_placement_witness:
  "has_shape 2 2 [[255, 255], [255, 255 :: u8]] \<and> (0 :: nat) < 2 \<and>
   (\<exists>stamped. stamp_sign 12 12 [[255, 255], [255, 255]] 2 2 = Inr stamped \<and>
      has_shape 12 12 stamped \<and> stamped ! 0 ! 1 = 255 \<and> stamped ! 1 ! 0 = 255 \<and>
      stamped ! 2 ! 1 = 0 \<and> stamped ! 11 ! 11 = 0) \<and>
   int 11 - int 2 - 10 < 0 \<and>
   stamp_sign 11 20 [[255, 255], [255, 255]] 2 2 = Inl ValueError \<and>
   stamp_sign 20 11 [[255, 255], [255, 255]] 2 2 = Inl ValueError"
proof -
  have g: "has_shape 2 2 [[255, 255], [255, 255 :: u8]]" by (simp add: has_shape_def)
  have p: "(0 :: nat) < 2" by simp
  note t = stamp_sign_placement [OF g p p]
  from t [of 12 12] obtain stamped where
    s: "stamp_sign 12 12 [[255, 255], [255, 255]] 2 2 = Inr stamped" "has_shape 12 12 stamped"
      "\<forall>i<12. \<forall>j<12. stamped ! i ! j =
            (if 12 - 2 - 10 \<le> i \<and> i < 12 - 10 \<and> 12 - 2 - 10 \<le> j \<and> j < 12 - 10
             then [[255, 255], [255, 255 :: u8]] ! (i - (12 - 2 - 10)) ! (j - (12 - 2 - 10)) else 0)"
    by auto
  have v: "stamped ! 0 ! 1 = 255" "stamped ! 1 ! 0 = 255" "stamped ! 2 ! 1 = 0" "stamped ! 11 ! 11 = 0"
    using s(3) by simp_all
  have a: "\<exists>stamped. stamp_sign 12 12 [[255, 255], [255, 255]] 2 2 = Inr stamped \<and>
      has_shape 12 12 stamped \<and> stamped ! 0 ! 1 = 255 \<and> stamped ! 1 ! 0 = 255 \<and>
      stamped ! 2 ! 1 = 0 \<and> stamped ! 11 ! 11 = 0"
    using s(1,2) v by blast
  have b: "int 11 - int 2 - 10 < 0 \<and> stamp_sign 11 20 [[255, 255], [255, 255]] 2 2 = Inl ValueError"
    using t [of 11 20] by simp
  have c: "stamp_sign 20 11 [[255, 255], [255, 255]] 2 2 = Inl ValueError"
    using t [of 20 11] by simp
  show ?thesis using g p a b c by blast
qed

text \<open>An image of fewer than 10 rows can take the sign in silence, at a wrapped position.\<close>

lemma stamp_sign_wrapped_example:
  "stamp_sign 9 40 (replicate 5 (replicate 5 255)) 5 5 =
     Inr (map (\<lambda>i. map (\<lambda>j. if 3 \<le> i \<and> i < 8 \<and> 25 \<le> j \<and> j < 30 then 255 else 0) [0 ..< 40]) [0 ..< 9])"
proof -
  have w: "img_width (replicate 5 (replicate 5 (255 :: u8))) = 5"
    by (simp add: img_width_def eval_nat_numeral)
  have i: "slice_index (- 6) 9 = 3" "slice_index (- 1) 9 = 8" "slice_index 25 40 = 25"
    "slice_index 30 40 = 30"
    by (simp_all add: slice_index_def)
  show ?thesis
    unfolding stamp_sign_def np_set_slice_def Let_def
    by (auto simp: w i img_height_def)
qed

subsection \<open>When process\_image returns\<close>

lemma img_height_map: "img_height (map f img) = img_height img"
  by (simp add: img_height_def)

lemma img_width_map: "img_width (map (map f) img) = img_width img"
  by (cases img) (simp_all add: img_width_def)

lemma img_height_replicate: "img_height (replicate h r) = h"
  by (simp add: img_height_def)

lemma img_width_replicate: "0 < h \<Longrightarrow> img_width (replicate h r) = length r"
  by (cases h) (simp_all add: img_width_def)

lemma has_shape_resize_nearest: "has_shape h w (resize_nearest w h img)"
  unfolding resize_nearest_def by (rule has_shape_grid)

lemma has_shape_map: "has_shape h w (map (map f) img) = has_shape h w img"
  by (simp add: has_shape_def list_all_iff)

lemma add_sign_returns:
  assumes bg: "has_shape h w bg0"
    and pos: "0 < scaled_size (img_height sign_img)" "0 < scaled_size (img_width sign_img)"
    and g: "has_shape (scaled_size (img_height sign_img)) (scaled_size (img_width sign_img))
        (cv_resize_gray cv (scaled_size (img_width sign_img)) (scaled_size (img_height sign_img))
           (map (map (\<lambda>v. if v > 0 then 255 else 0)) sign_img))"
    and fit: "scaled_size (img_height sign_img) + 10 \<le> h" "scaled_size (img_width sign_img) + 10 \<le> w"
  shows "\<exists>bg. add_sign cv sign_img h w bg0 = Inr bg"
proof -
  let ?ah = "scaled_size (img_height sign_img)" and ?aw = "scaled_size (img_width sign_img)"
  let ?glyph = "cv_resize_gray cv ?aw ?ah (map (map (\<lambda>v. if v > 0 then 255 else 0)) sign_img)"
  let ?st = "map (\<lambda>i. map (\<lambda>j.
          if h - ?ah - 10 \<le> i \<and> i < h - 10 \<and> w - ?aw - 10 \<le> j \<and> j < w - 10
          then ?glyph ! (i - (h - ?ah - 10)) ! (j - (w - ?aw - 10)) else 0) [0 ..< w]) [0 ..< h]"
  have st: "stamp_sign h w ?glyph ?ah ?aw = Inr ?st"
    by (rule stamp_sign_fits [OF g pos fit])
  have "has_shape h w (map (map (\<lambda>v. (v, v, v))) ?st)"
    unfolding has_shape_map by (rule has_shape_grid)
  then have ss: "same_shape bg0 (map (map (\<lambda>v. (v, v, v))) ?st)"
    by (rule has_shape_same_shape [OF bg])
  show ?thesis
    using pos st ss
    by (simp add: add_sign_def Let_def img_height_map img_width_map cv2_resize_gray_def
        cv2_add_weighted_def)
qed

lemma add_sign_too_small:
  assumes pos: "0 < scaled_size (img_height sign_img)" "0 < scaled_size (img_width sign_img)"
    and g: "has_shape (scaled_size (img_height sign_img)) (scaled_size (img_width sign_img))
        (cv_resize_gray cv (scaled_size (img_width sign_img)) (scaled_size (img_height sign_img))
           (map (map (\<lambda>v. if v > 0 then 255 else 0)) sign_img))"
    and small: "(2 \<le> scaled_size (img_height sign_img) \<and> 10 \<le> h \<and> h < scaled_size (img_height sign_img) + 10) \<or>
       (2 \<le> scaled_size (img_width sign_img) \<and> 10 \<le> w \<and> w < scaled_size (img_width sign_img) + 10)"
  shows "add_sign cv sign_img h w bg0 = Inl ValueError"
proof -
  let ?ah = "scaled_size (img_height sign_img)" and ?aw = "scaled_size (img_width sign_img)"
  let ?glyph = "cv_resize_gray cv ?aw ?ah (map (map (\<lambda>v. if v > 0 then 255 else 0)) sign_img)"
  have st: "stamp_sign h w ?glyph ?ah ?aw = Inl ValueError"
    using small stamp_sign_too_small_rows [OF g] stamp_sign_too_small_cols [OF g pos(1)] by blast
  show ?thesis
    using pos st
    by (simp add: add_sign_def Let_def img_height_map img_width_map cv2_resize_gray_def)
qed

lemma process_image_returns:
  assumes d: "resize_dims (img_height img0) (img_width img0) = (h, w)" and hw: "0 < h" "0 < w"
    and i: "has_shape h w (cv_resize cv w h img0)"
    and m: "case img_mask of None \<Rightarrow> True | Some m0 \<Rightarrow> has_shape h w (cv_resize cv w h m0)"
    and pos: "0 < scaled_size (img_height sign_img)" "0 < scaled_size (img_width sign_img)"
    and g: "has_shape (scaled_size (img_height sign_img)) (scaled_size (img_width sign_img))
        (cv_resize_gray cv (scaled_size (img_width sign_img)) (scaled_size (img_height sign_img))
           (map (map (\<lambda>v. if v > 0 then 255 else 0)) sign_img))"
    and fit: "scaled_size (img_height sign_img) + 10 \<le> h" "scaled_size (img_width sign_img) + 10 \<le> w"
  shows "\<exists>img fg bg. process_image cv sign_img img0 img_mask = Inr (img, fg, bg)"
proof (cases img_mask)
  case None
  from add_sign_returns [OF has_shape_replicate pos g fit] obtain bg where
    "add_sign cv sign_img h w (replicate h (replicate w (0, 0, 0))) = Inr bg" by blast
  then show ?thesis using hw by (simp add: process_image_def d cv2_resize_def None)
next
  case (Some m0)
  with m have ms: "has_shape h w (cv_resize cv w h m0)" by simp
  have ss: "same_shape (cv_resize cv w h img0) (cv_resize cv w h m0)"
    by (rule has_shape_same_shape [OF i ms])
  note sl = split_layers_same_shape [OF ss, of cv]
  from split_layers_shape [OF sl i] have "has_shape h w
     (map2 (map2 (\<lambda>p v. if v \<noteq> 0 then px_or p p else (0, 0, 0))) (cv_resize cv w h img0)
        (cv2_bitwise_not (binary_mask_of cv (cv_resize cv w h m0))))" by simp
  from add_sign_returns [OF this pos g fit] obtain bg where
    "add_sign cv sign_img h w
       (map2 (map2 (\<lambda>p v. if v \<noteq> 0 then px_or p p else (0, 0, 0))) (cv_resize cv w h img0)
          (cv2_bitwise_not (binary_mask_of cv (cv_resize cv w h m0)))) = Inr bg" by blast
  then show ?thesis using hw sl by (simp add: process_image_def d cv2_resize_def Some)
qed

lemma process_image_sign_too_small:
  assumes d: "resize_dims (img_height img0) (img_width img0) = (h, w)" and hw: "0 < h" "0 < w"
    and pos: "0 < scaled_size (img_height sign_img)" "0 < scaled_size (img_width sign_img)"
    and g: "has_shape (scaled_size (img_height sign_img)) (scaled_size (img_width sign_img))
        (cv_resize_gray cv (scaled_size (img_width sign_img)) (scaled_size (img_height sign_img))
           (map (map (\<lambda>v. if v > 0 then 255 else 0)) sign_img))"
    and small: "(2 \<le> scaled_size (img_height sign_img) \<and> 10 \<le> h \<and> h < scaled_size (img_height sign_img) + 10) \<or>
       (2 \<le> scaled_size (img_width sign_img) \<and> 10 \<le> w \<and> w < scaled_size (img_width sign_img) + 10)"
  shows "process_image cv sign_img img0 None = Inl ValueError"
  using hw add_sign_too_small [OF pos g small]
  by (simp add: process_image_def d cv2_resize_def)

text \<open>
  C10, as stated, fails: for a prepared image of 11 rows and 20 columns and a sign of 14
  by 14 pixels, which scales to 2 by 2, the image is one row short, the start bound of the
  rows is \<open>11 - 2 - 10 = -1\<close>, and \<^verbatim>\<open>process_image\<close> raises \<^verbatim>\<open>ValueError\<close>: the sign is not
  misplaced or dropped in silence.
\<close>

theorem process_image_small_image_raises:
  "img_height (replicate 11 (replicate 20 ((9, 9, 9) :: pixel))) < scaled_size 14 + 10 \<and>
   int 11 - int (scaled_size 14) - 10 < 0 \<and>
   process_image cv_example (replicate 14 (replicate 14 255))
     (replicate 11 (replicate 20 (9, 9, 9))) None = Inl ValueError"
proof -
  have s: "scaled_size (img_height (replicate 14 (replicate 14 (255 :: u8)))) = 2"
    "scaled_size (img_width (replicate 14 (replicate 14 (255 :: u8)))) = 2"
    by (simp_all add: img_height_replicate img_width_replicate scaled_size_def)
  have d: "resize_dims (img_height (replicate 11 (replicate 20 ((9, 9, 9) :: pixel))))
     (img_width (replicate 11 (replicate 20 ((9, 9, 9) :: pixel)))) = (11, 20)"
    by (simp add: img_height_replicate img_width_replicate resize_dims.simps)
  have g: "has_shape (scaled_size (img_height (replicate 14 (replicate 14 (255 :: u8)))))
      (scaled_size (img_width (replicate 14 (replicate 14 (255 :: u8)))))
      (cv_resize_gray cv_example (scaled_size (img_width (replicate 14 (replicate 14 (255 :: u8)))))
         (scaled_size (img_height (replicate 14 (replicate 14 (255 :: u8)))))
         (map (map (\<lambda>v. if v > 0 then 255 else 0)) (replicate 14 (replicate 14 (255 :: u8)))))"
    by (simp add: cv_example_def has_shape_resize_nearest)
  have "process_image cv_example (replicate 14 (replicate 14 255))
     (replicate 11 (replicate 20 (9, 9, 9))) None = Inl ValueError"
    by (rule process_image_sign_too_small [OF d _ _ _ _ g]) (simp_all add: s)
  then show ?thesis by (simp add: img_height_replicate scaled_size_def)
qed

theorem process_image_resize_witness:
  "resize_dims (img_height (replicate 600 (replicate 24 ((9, 9, 9) :: pixel))))
     (img_width (replicate 600 (replicate 24 ((9, 9, 9) :: pixel)))) = (300, 12) \<and>
   (\<exists>img fg bg.
      process_image cv_example (replicate 14 (replicate 14 255))
        (replicate 600 (replicate 24 (9, 9, 9)))
        (Some (replicate 600 (replicate 24 (255, 255, 255)))) = Inr (img, fg, bg) \<and>
      img = cv_resize cv_example 12 300 (replicate 600 (replicate 24 (9, 9, 9))) \<and>
      (\<exists>bg0. split_layers cv_example img
           (cv_resize cv_example 12 300 (replicate 600 (replicate 24 (255, 255, 255)))) = Inr (fg, bg0) \<and>
         add_sign cv_example (replicate 14 (replicate 14 255)) 300 12 bg0 = Inr bg) \<and>
      has_shape 300 12 img \<and> has_shape 300 12 fg \<and> has_shape 300 12 bg) \<and>
   (300 :: nat) \<le> 500 \<and> (12 :: nat) \<le> 500 \<and> 300 = (600 :: nat) div 2 ^ 1 \<and> 12 = (24 :: nat) div 2 ^ 1"
proof -
  let ?img0 = "replicate 600 (replicate 24 ((9, 9, 9) :: pixel))"
  let ?m0 = "replicate 600 (replicate 24 ((255, 255, 255) :: pixel))"
  let ?sign = "replicate 14 (replicate 14 (255 :: u8))"
  have s: "scaled_size (img_height ?sign) = 2" "scaled_size (img_width ?sign) = 2"
    by (simp_all add: img_height_replicate img_width_replicate scaled_size_def)
  have d: "resize_dims (img_height ?img0) (img_width ?img0) = (300, 12)"
    by (simp add: img_height_replicate img_width_replicate resize_dims.simps)
  have i: "has_shape 300 12 (cv_resize cv_example 12 300 ?img0)"
    by (simp add: cv_example_def has_shape_resize_nearest)
  have m: "case Some ?m0 of None \<Rightarrow> True | Some m0 \<Rightarrow> has_shape 300 12 (cv_resize cv_example 12 300 m0)"
    by (simp add: cv_example_def has_shape_resize_nearest)
  have g: "has_shape (scaled_size (img_height ?sign)) (scaled_size (img_width ?sign))
      (cv_resize_gray cv_example (scaled_size (img_width ?sign)) (scaled_size (img_height ?sign))
         (map (map (\<lambda>v. if v > 0 then 255 else 0)) ?sign))"
    by (simp add: cv_example_def has_shape_resize_nearest)
  have "\<exists>img fg bg. process_image cv_example ?sign ?img0 (Some ?m0) = Inr (img, fg, bg)"
    by (rule process_image_returns [OF d _ _ i m _ _ g]) (simp_all add: s)
  then obtain img fg bg where p: "process_image cv_example ?sign ?img0 (Some ?m0) = Inr (img, fg, bg)"
    by blast
  from process_image_resize [OF d, of cv_example ?sign "Some ?m0"] p
  have a: "img = cv_resize cv_example 12 300 ?img0 \<and>
       (case Some ?m0 of
          None \<Rightarrow> fg = img
        | Some m0 \<Rightarrow>
            (\<exists>bg0. split_layers cv_example img (cv_resize cv_example 12 300 m0) = Inr (fg, bg0) \<and>
               add_sign cv_example ?sign 300 12 bg0 = Inr bg)) \<and>
       (has_shape 300 12 (cv_resize cv_example 12 300 ?img0) \<longrightarrow>
          has_shape 300 12 img \<and> has_shape 300 12 fg \<and> has_shape 300 12 bg)"
    by blast
  have b: "img = cv_resize cv_example 12 300 ?img0 \<and>
      (\<exists>bg0. split_layers cv_example img (cv_resize cv_example 12 300 ?m0) = Inr (fg, bg0) \<and>
         add_sign cv_example ?sign 300 12 bg0 = Inr bg) \<and>
      has_shape 300 12 img \<and> has_shape 300 12 fg \<and> has_shape 300 12 bg"
    using a i unfolding option.case by blast
  have n: "(300 :: nat) \<le> 500 \<and> (12 :: nat) \<le> 500 \<and> 300 = (600 :: nat) div 2 ^ 1 \<and> 12 = (24 :: nat) div 2 ^ 1"
    by simp
  from p b have "\<exists>img fg bg.
      process_image cv_example ?sign ?img0 (Some ?m0) = Inr (img, fg, bg) \<and>
      img = cv_resize cv_example 12 300 ?img0 \<and>
      (\<exists>bg0. split_layers cv_example img (cv_resize cv_example 12 300 ?m0) = Inr (fg, bg0) \<and>
         add_sign cv_example ?sign 300 12 bg0 = Inr bg) \<and>
      has_shape 300 12 img \<and> has_shape 300 12 fg \<and> has_shape 300 12 bg"
    by blast
  with d n show ?thesis by blast
qed

theorem split_layers_complementary_witness:
  "same_shape [[(1, 2, 3), (4, 5, 6 :: u8)]] [[(0, 0, 0), (255, 255, 255 :: u8)]] \<and>
   split_layers cv_example [[(1, 2, 3), (4, 5, 6)]] [[(0, 0, 0), (255, 255, 255)]] =
     Inr ([[(0, 0, 0), (4, 5, 6)]], [[(1, 2, 3), (0, 0, 0)]]) \<and>
   (\<exists>fg bg. split_layers cv_example [[(1, 2, 3), (4, 5, 6)]] [[(0, 0, 0), (255, 255, 255)]] = Inr (fg, bg) \<and>
      list_all2 (list_all2 (\<lambda>p q. p = (0, 0, 0) \<or> q = (0, 0, 0))) fg bg \<and>
      wrapped_sum fg bg = [[(1, 2, 3), (4, 5, 6)]] \<and> clipped_sum fg bg = [[(1, 2, 3), (4, 5, 6)]] \<and>
      np_add_img fg bg = Inr [[(1, 2, 3), (4, 5, 6)]])"
proof -
  have a: "same_shape [[(1, 2, 3), (4, 5, 6 :: u8)]] [[(0, 0, 0), (255, 255, 255 :: u8)]]"
    by (simp add: same_shape_def)
  have b: "split_layers cv_example [[(1, 2, 3), (4, 5, 6)]] [[(0, 0, 0), (255, 255, 255)]] =
     Inr ([[(0, 0, 0), (4, 5, 6)]], [[(1, 2, 3), (0, 0, 0)]])"
    by code_simp
  show ?thesis
    using a b split_layers_complementary [OF a, of cv_example]
    by (intro conjI)
qed

subsection \<open>The checks of load\_image\<close>

lemma prepare_error: "load_image ex ui = Inl e \<Longrightarrow> prepare cv sign_img ex ui = Inl e"
  by (simp add: prepare_def)

lemma choose_images_upload:
  "\<not> use_example ui \<Longrightarrow> choose_images ex ui = Inr (Some img, img_mask) \<Longrightarrow>
   pil_bands img = 3 \<and> (\<forall>m. img_mask = Some m \<longrightarrow> pil_bands m = 3)"
  by (auto simp: choose_images_def convert_rgb_def Let_def split: option.splits if_splits)

lemma load_image_size_mismatch:
  "\<not> use_example ui \<Longrightarrow> uploaded_img_file ui = Some i \<Longrightarrow> uploaded_img_mask ui = Some m \<Longrightarrow>
   pil_size i \<noteq> pil_size m \<Longrightarrow> load_image ex ui = Inl (StopException SizeMismatch)"
  by (simp add: load_image_def choose_images_def convert_rgb_def)

lemma load_image_image_bands:
  "choose_images ex ui = Inr (Some img, img_mask) \<Longrightarrow> pil_bands img \<noteq> 3 \<Longrightarrow>
   load_image ex ui = Inl (if pil_bands img \<le> 1 then IndexError else StopException ImageNotRGB)"
  by (simp add: load_image_def shape2_def)

lemma load_image_mask_bands:
  "choose_images ex ui = Inr (Some img, Some m) \<Longrightarrow> pil_bands img = 3 \<Longrightarrow> pil_bands m \<noteq> 3 \<Longrightarrow>
   load_image ex ui = Inl (if pil_bands m \<le> 1 then IndexError else StopException MaskNotRGB)"
  by (simp add: load_image_def shape2_def)

text \<open>
  C7, as stated, fails: an uploaded image of four channels is converted to RGB before the
  check of the channels, so \<^verbatim>\<open>load_image\<close> accepts it and the layers are produced.
\<close>

theorem prepare_accepts_rgba_upload:
  "pil_bands rgba_upload = 4 \<and>
   load_image examples_example (sidebar_uploads (Some rgba_upload) None) =
     Inr (pil_rgb rgba_upload, None) \<and>
   (\<exists>img fg bg.
      prepare cv_example sign_example examples_example (sidebar_uploads (Some rgba_upload) None) =
        Inr (img, fg, bg))"
proof -
  have l: "load_image examples_example (sidebar_uploads (Some rgba_upload) None) =
     Inr (pil_rgb rgba_upload, None)"
    by (simp add: load_image_def choose_images_def sidebar_uploads_def convert_rgb_def shape2_def
        rgba_upload_def)
  have s: "scaled_size (img_height sign_example) = 2" "scaled_size (img_width sign_example) = 2"
    by (simp_all add: sign_example_def img_height_replicate img_width_replicate scaled_size_def)
  have d: "resize_dims (img_height (pil_rgb rgba_upload)) (img_width (pil_rgb rgba_upload)) = (12, 12)"
    by (simp add: rgba_upload_def img_height_replicate img_width_replicate resize_dims.simps)
  have i: "has_shape 12 12 (cv_resize cv_example 12 12 (pil_rgb rgba_upload))"
    by (simp add: cv_example_def has_shape_resize_nearest)
  have m: "case None of None \<Rightarrow> True | Some m0 \<Rightarrow> has_shape 12 12 (cv_resize cv_example 12 12 m0)"
    by simp
  have g: "has_shape (scaled_size (img_height sign_example)) (scaled_size (img_width sign_example))
      (cv_resize_gray cv_example (scaled_size (img_width sign_example)) (scaled_size (img_height sign_example))
         (map (map (\<lambda>v. if v > 0 then 255 else 0)) sign_example))"
    by (simp add: cv_example_def has_shape_resize_nearest)
  have "\<exists>img fg bg. process_image cv_example sign_example (pil_rgb rgba_upload) None = Inr (img, fg, bg)"
    by (rule process_image_returns [OF d _ _ i m _ _ g]) (simp_all add: s)
  then have p: "\<exists>img fg bg.
      prepare cv_example sign_example examples_example (sidebar_uploads (Some rgba_upload) None) =
        Inr (img, fg, bg)"
    by (simp add: prepare_def l)
  have b: "pil_bands rgba_upload = 4" by (simp add: rgba_upload_def)
  show ?thesis using b l p by (intro conjI)
qed

text \<open>
  C7, amended. An uploaded image and an uploaded mask whose pixel dimensions differ
  (compared before any resizing) make \<^verbatim>\<open>load_image\<close> stop with a warning. An image that
  reaches the check of the channels with a channel count other than 3 makes it fail (it
  stops with a warning, or raises \<^verbatim>\<open>IndexError\<close> on the two-dimensional array of a
  single band), and so does a mask with a channel count other than 3; uploads are
  converted to RGB first, so only the example files can reach the check with another
  count. Every failure of \<^verbatim>\<open>load_image\<close> is the failure of the preparation:
  \<^verbatim>\<open>process_image\<close> is not called and no layers are produced.
\<close>

theorem load_image_rejects:
  "(\<not> use_example ui \<and> uploaded_img_file ui = Some i \<and> uploaded_img_mask ui = Some m \<and>
      pil_size i \<noteq> pil_size m \<longrightarrow>
      load_image ex ui = Inl (StopException SizeMismatch)) \<and>
   (choose_images ex ui = Inr (Some img, img_mask) \<and> pil_bands img \<noteq> 3 \<longrightarrow>
      load_image ex ui = Inl (if pil_bands img \<le> 1 then IndexError else StopException ImageNotRGB)) \<and>
   (choose_images ex ui = Inr (Some img, Some m') \<and> pil_bands img = 3 \<and> pil_bands m' \<noteq> 3 \<longrightarrow>
      load_image ex ui = Inl (if pil_bands m' \<le> 1 then IndexError else StopException MaskNotRGB)) \<and>
   (\<not> use_example ui \<and> choose_images ex ui = Inr (Some img, img_mask) \<longrightarrow>
      pil_bands img = 3 \<and> (\<forall>m. img_mask = Some m \<longrightarrow> pil_bands m = 3)) \<and>
   (\<forall>e. load_image ex ui = Inl e \<longrightarrow> prepare cv sign_img ex ui = Inl e)"
  using load_image_size_mismatch [of ui i m ex] load_image_image_bands [of ex ui img img_mask]
    load_image_mask_bands [of ex ui img m'] choose_images_upload [of ui ex img img_mask]
    prepare_error [of ex ui _ cv sign_img]
  by blast

theorem load_image_rejects_witness:
  "pil_size rgba_upload \<noteq> pil_size small_mask \<and>
   load_image examples_example (sidebar_uploads (Some rgba_upload) (Some small_mask)) =
     Inl (StopException SizeMismatch) \<and>
   prepare cv_example sign_example examples_example (sidebar_uploads (Some rgba_upload) (Some small_mask)) =
     Inl (StopException SizeMismatch) \<and>
   choose_images examples_example sidebar_button = Inr (Some rgba_upload, Some small_mask) \<and>
   pil_bands rgba_upload \<noteq> 3 \<and>
   load_image examples_example sidebar_button = Inl (StopException ImageNotRGB) \<and>
   prepare cv_example sign_example examples_example sidebar_button = Inl (StopException ImageNotRGB)"
proof -
  let ?ui = "sidebar_uploads (Some rgba_upload) (Some small_mask)"
  have a: "\<not> use_example ?ui \<and> uploaded_img_file ?ui = Some rgba_upload \<and>
      uploaded_img_mask ?ui = Some small_mask \<and> pil_size rgba_upload \<noteq> pil_size small_mask"
    by (simp add: sidebar_uploads_def rgba_upload_def small_mask_def)
  note t1 = load_image_rejects [of ?ui rgba_upload small_mask examples_example _ _ _ cv_example sign_example]
  from t1 a have l1: "load_image examples_example ?ui = Inl (StopException SizeMismatch)" by blast
  with t1 have p1: "prepare cv_example sign_example examples_example ?ui = Inl (StopException SizeMismatch)"
    by blast
  have c: "choose_images examples_example sidebar_button = Inr (Some rgba_upload, Some small_mask)"
    by (simp add: choose_images_def sidebar_button_def examples_example_def py_index_def)
  have b: "pil_bands rgba_upload \<noteq> 3" "\<not> pil_bands rgba_upload \<le> 1" by (simp_all add: rgba_upload_def)
  note t2 = load_image_rejects [of sidebar_button _ _ examples_example rgba_upload "Some small_mask" _
      cv_example sign_example]
  from t2 c b have l2: "load_image examples_example sidebar_button = Inl (StopException ImageNotRGB)"
    by auto
  with t2 have p2: "prepare cv_example sign_example examples_example sidebar_button =
      Inl (StopException ImageNotRGB)"
    by blast
  show ?thesis using a l1 p1 c b(1) l2 p2 by blast
qed

subsection \<open>The frames of a video\<close>









subsection \<open>The audio of a video\<close>



end
